theory Spec2Isabelle
  imports Main "HOL-Library.Word" "HOL-Library.Signed_Division" "HOL-Library.Char_ord"
    "HOL-Library.List_Lexorder" "HOL-Library.Sublist"
begin

unbundle bit_operations_syntax

section \<open>Resource normalisation (pkg/command/experiments.go)\<close>

text \<open>
  The Go struct \<^verbatim>\<open>applications.Resource\<close> is declared in a package outside the two source files; the
  command code reads and writes four fields of its \<^verbatim>\<open>Kubernetes\<close> member, which is
  what the record below carries. A Go string is a byte list, a slice is a list, and
  \<^verbatim>\<open>nil\<close> is the empty list (\<^verbatim>\<open>len(nil) == 0\<close>).
\<close>

record Kubernetes =
  Namespace :: string
  Namespaces :: "string list"
  NamespaceSelector :: string
  Selector :: string

text \<open>
  \<^verbatim>\<open>normalizeResource\<close>, lines 455 to 471. The index \<^verbatim>\<open>Namespaces[0]\<close> is read only
  when the length is 1.
\<close>

definition normalizeResource :: "Kubernetes \<Rightarrow> Kubernetes \<times> bool" where
  "normalizeResource r =
     (if Namespace r = [] \<and> length (Namespaces r) = 0 \<and> NamespaceSelector r = []
      then (r, False)
      else
        let r1 = (if Namespace r = [] \<and> length (Namespaces r) = 1
                  then r\<lparr>Namespace := hd (Namespaces r), Namespaces := []\<rparr>
                  else r);
            r2 = (if Namespace r1 \<noteq> [] \<and> length (Namespaces r1) > 0
                  then r1\<lparr>Namespaces := Namespaces r1 @ [Namespace r1], Namespace := []\<rparr>
                  else r1)
        in (r2, True))"

text \<open>
  The create command, lines 234 to 240: the application starts with no resources and
  the flag-built resource is appended only when \<^verbatim>\<open>normalizeResource\<close> reports ok.
\<close>

definition createApplicationResources :: "Kubernetes \<Rightarrow> Kubernetes list" where
  "createApplicationResources resource =
     (case normalizeResource resource of (r, ok) \<Rightarrow> if ok then [] @ [r] else [])"

text \<open>
  The edit command, lines 311 to 319: the first resource of the fetched application is
  replaced (or one is appended) and the update flag is raised, only when ok.
\<close>

definition editApplicationResources ::
  "Kubernetes \<Rightarrow> Kubernetes list \<times> bool \<Rightarrow> Kubernetes list \<times> bool" where
  "editApplicationResources resource st =
     (case st of (resources, needsUpdate) \<Rightarrow>
        (case normalizeResource resource of (r, ok) \<Rightarrow>
           if ok
           then (if length resources > 0 then (resources[0 := r], True)
                 else (resources @ [r], True))
           else (resources, needsUpdate)))"

section \<open>Generated experiment names (newExperimentName)\<close>

type_synonym byte = "8 word"

text \<open>
  \<^verbatim>\<open>time.Now().UTC().UnixNano()\<close> is an \<^verbatim>\<open>int64\<close>; Go's \<^verbatim>\<open>/\<close> on it truncates
  towards zero; the conversion to \<^verbatim>\<open>uint64\<close> keeps the bits; \<^verbatim>\<open><<16\<close> drops the
  top sixteen bits.
\<close>

definition Millisecond :: int where
  "Millisecond = 1000000"

definition unixMilli :: "64 word \<Rightarrow> int" where
  "unixMilli ns = sint ns sdiv Millisecond"

definition timeField :: "64 word \<Rightarrow> 64 word" where
  "timeField ns = push_bit 16 (word_of_int (unixMilli ns) :: 64 word)"

text \<open>\<^verbatim>\<open>binary.BigEndian.PutUint64\<close>: the first eight bytes of the slice are overwritten.\<close>

definition PutUint64 :: "byte list \<Rightarrow> 64 word \<Rightarrow> byte list" where
  "PutUint64 b v =
     [ucast (drop_bit 56 v), ucast (drop_bit 48 v), ucast (drop_bit 40 v),
      ucast (drop_bit 32 v), ucast (drop_bit 24 v), ucast (drop_bit 16 v),
      ucast (drop_bit 8 v), ucast v] @ drop 8 b"

text \<open>
  \<^verbatim>\<open>rand.Read(name[6:])\<close> fills the slice from index 6 on; the entropy source is a
  parameter, its \<open>i\<close>-th byte being \<open>rnd i\<close>.
\<close>

definition randRead :: "(nat \<Rightarrow> byte) \<Rightarrow> nat \<Rightarrow> byte list \<Rightarrow> byte list" where
  "randRead rnd from b = take from b @ map rnd [0..<length b - from]"

text \<open>
  \<^verbatim>\<open>encoding/base32\<close>: one quantum of up to five source bytes gives eight 5-bit values;
  a byte beyond the end of the source contributes no bits.
\<close>

definition quantum :: "byte list \<Rightarrow> byte list" where
  "quantum src =
     (let s = (\<lambda>i. if i < length src then src ! i else 0) in
      [drop_bit 3 (s 0),
       (push_bit 2 (s 0) AND 0x1F) OR (drop_bit 6 (s 1) AND 0x1F),
       drop_bit 1 (s 1) AND 0x1F,
       (push_bit 4 (s 1) AND 0x1F) OR (drop_bit 4 (s 2) AND 0x1F),
       (push_bit 1 (s 2) AND 0x1F) OR drop_bit 7 (s 3),
       drop_bit 2 (s 3) AND 0x1F,
       (push_bit 3 (s 3) AND 0x1F) OR drop_bit 5 (s 4),
       s 4 AND 0x1F])"

definition encodeStd :: string where
  "encodeStd = ''0123456789ABCDEFGHJKMNPQRSTVWXYZ''"

definition encodeChar :: "string \<Rightarrow> byte \<Rightarrow> char" where
  "encodeChar alphabet b = alphabet ! unat (b AND 31)"

text \<open>
  \<^verbatim>\<open>EncodeToString\<close> without padding: full quanta give eight characters each, a last
  quantum of \<open>k < 5\<close> bytes gives \<open>(8 k + 4) div 5\<close> characters.
\<close>

fun EncodeToString :: "string \<Rightarrow> byte list \<Rightarrow> string" where
  "EncodeToString alphabet (a # b # c # d # e # rest) =
     map (encodeChar alphabet) (quantum [a, b, c, d, e]) @ EncodeToString alphabet rest"
| "EncodeToString alphabet [] = []"
| "EncodeToString alphabet src =
     take ((length src * 8 + 4) div 5) (map (encodeChar alphabet) (quantum src))"

definition nameBytes :: "64 word \<Rightarrow> (nat \<Rightarrow> byte) \<Rightarrow> byte list" where
  "nameBytes ns rnd = randRead rnd 6 (PutUint64 (replicate 16 0) (timeField ns))"

definition newExperimentName :: "64 word \<Rightarrow> (nat \<Rightarrow> byte) \<Rightarrow> string" where
  "newExperimentName ns rnd = EncodeToString encodeStd (nameBytes ns rnd)"

section \<open>The API test run (runTest)\<close>

subsection \<open>Errors and responses\<close>

type_synonym url = string

text \<open>
  A Go \<^verbatim>\<open>error\<close> value is \<^verbatim>\<open>nil\<close> or a chain of wrapped errors, outermost first. A
  link of the chain is an \<^verbatim>\<open>*api.Error\<close>, of which the test reads the \<^verbatim>\<open>Type\<close> field,
  or an error of any other dynamic type, of which only the message is kept.
  \<^verbatim>\<open>errors.As(err, &aerr)\<close> finds the first \<^verbatim>\<open>*api.Error\<close> of the chain.
\<close>

datatype errorValue = ApiError string | OtherError string

type_synonym error = "errorValue list"

fun errors_As :: "error \<Rightarrow> string option" where
  "errors_As [] = None"
| "errors_As (ApiError ty # rest) = Some ty"
| "errors_As (OtherError msg # rest) = errors_As rest"

text \<open>
  Modelled from the spec: the constant \<^verbatim>\<open>experiments.ErrExperimentStopped\<close> is declared
  in a package outside the two source files; the specification names its value \<^verbatim>\<open>ExperimentStopped\<close>.
\<close>

definition ErrExperimentStopped :: string where
  "ErrExperimentStopped = ''ExperimentStopped''"

text \<open>The loop's exit test, line 177.\<close>

definition experimentStopped :: "error \<Rightarrow> bool" where
  "experimentStopped err =
     (case errors_As err of None \<Rightarrow> False | Some ty \<Rightarrow> ty = ErrExperimentStopped)"

datatype Relation =
  RelationSelf | RelationUp | RelationAlternate | RelationScenarios | RelationTemplate
  | RelationExperiments | RelationTrials | RelationNextTrial | RelationLabels

text \<open>
  The response types are declared in packages outside the two source files. The test
  reads a location,
  a title and links from every response (\<^verbatim>\<open>api.Metadata\<close>), a name from scenarios and
  applications, labels from experiments, and builds trial assignments from labels and
  assignments.
\<close>

record Metadata =
  Location :: url
  Title :: string
  Links :: "(Relation \<times> url) list"

definition Link :: "'a Metadata_scheme \<Rightarrow> Relation \<Rightarrow> url" where
  "Link md rel = (case map_of (Links md) rel of None \<Rightarrow> [] | Some u \<Rightarrow> u)"

record Resource = Metadata +
  Name :: string

record Experiment = Metadata +
  ExperimentLabels :: "(string \<times> string) list"

record TrialAssignments = Metadata +
  Labels :: "(string \<times> string) list"
  Assignments :: "(string \<times> string) list"

definition label :: "(string \<times> string) list \<Rightarrow> string \<Rightarrow> string" where
  "label m k = (case map_of m k of None \<Rightarrow> [] | Some v \<Rightarrow> v)"

datatype Tag = TagScan | TagRun | TagOther string

record ActivityItem =
  URL :: url
  ExternalURL :: url
  Tags :: "Tag list"

definition HasTag :: "ActivityItem \<Rightarrow> Tag \<Rightarrow> bool" where
  "HasTag ai tag = (tag \<in> set (Tags ai))"

datatype Activity = ScanActivity url | RunActivity url

text \<open>
  The test definition \<^verbatim>\<open>td\<close>: its fields \<^verbatim>\<open>Application\<close>, \<^verbatim>\<open>Scenario\<close> and \<^verbatim>\<open>Experiment\<close>
  are payloads opaque to the test, \<^verbatim>\<open>Baseline\<close> holds the baseline assignments, and
  \<^verbatim>\<open>GenerateTemplate\<close> and \<^verbatim>\<open>TrialResults\<close> are its two methods.
\<close>

record TestDefinition =
  ApplicationDef :: string
  ScenarioDef :: string
  ExperimentDef :: string
  Baseline :: "(string \<times> string) list"
  GenerateTemplate :: string
  TrialResults :: "TrialAssignments \<Rightarrow> string"

text \<open>
  The remote service is any deterministic state machine: every client method takes its
  arguments and the state \<open>'w\<close> of the world and returns its results and the next
  state. The clock and the entropy source that \<^verbatim>\<open>newExperimentName\<close> reads are part of
  the world. \<^verbatim>\<open>NewAPIWithEndpoint\<close> makes no request.
\<close>

record 'w API =
  GetScenario :: "url \<Rightarrow> 'w \<Rightarrow> (Resource \<times> error) \<times> 'w"
  GetApplication :: "url \<Rightarrow> 'w \<Rightarrow> (Resource \<times> error) \<times> 'w"
  UpdateTemplate :: "url \<Rightarrow> string \<Rightarrow> 'w \<Rightarrow> error \<times> 'w"
  GetTemplate :: "url \<Rightarrow> 'w \<Rightarrow> error \<times> 'w"
  NewAPIWithEndpoint :: "url \<Rightarrow> error"
  CreateExperimentByName :: "url \<Rightarrow> string \<Rightarrow> string \<Rightarrow> 'w \<Rightarrow> (Experiment \<times> error) \<times> 'w"
  CreateTrial :: "url \<Rightarrow> TrialAssignments \<Rightarrow> 'w \<Rightarrow> error \<times> 'w"
  NextTrial :: "url \<Rightarrow> 'w \<Rightarrow> (TrialAssignments \<times> error) \<times> 'w"
  ReportTrial :: "url \<Rightarrow> string \<Rightarrow> 'w \<Rightarrow> error \<times> 'w"
  DeleteActivity :: "url \<Rightarrow> 'w \<Rightarrow> error \<times> 'w"
  ListApplications :: "'w \<Rightarrow> (Metadata \<times> error) \<times> 'w"
  CreateActivity :: "url \<Rightarrow> Activity \<Rightarrow> 'w \<Rightarrow> error \<times> 'w"
  DeleteApplication :: "url \<Rightarrow> 'w \<Rightarrow> error \<times> 'w"
  UnixNano :: "'w \<Rightarrow> 64 word"
  RandBytes :: "'w \<Rightarrow> nat \<Rightarrow> byte"

subsection \<open>Observable events and the test monad\<close>

text \<open>
  What a run does is recorded as the list of its calls, each with the error it
  returned (\<open>[]\<close> for \<^verbatim>\<open>nil\<close>); the operations on the wait group \<^verbatim>\<open>run\<close> and the
  cancellation of the subscription are events too.
\<close>

datatype call =
  CallGetScenario url
  | CallGetApplication url
  | CallUpdateTemplate url string
  | CallGetTemplate url
  | CallCreateExperimentByName url string string
  | CallCreateTrial url TrialAssignments
  | CallNextTrial url
  | CallReportTrial url string
  | CallDeleteActivity url
  | CallListApplications
  | CallCreateActivity url Activity
  | CallDeleteApplication url
  | RunAdd
  | RunDone
  | RunWait
  | CancelSub

type_synonym event = "call \<times> error"

text \<open>
  A test function ends in one of these ways: it returns; it leaves through
  \<^verbatim>\<open>runtime.Goexit\<close> (\<^verbatim>\<open>t.FailNow\<close> of a failed \<^verbatim>\<open>require\<close>, or \<^verbatim>\<open>t.Skip\<close>); it is
  still running when the steps granted to its loops are used up; it panics, which ends
  the test binary; or it blocks for ever in a call that never returns. It yields the
  events it caused and the failure messages it logged.
\<close>

datatype 'a outcome = Returned 'a | Goexit | Running | Panic | Blocked

type_synonym ('a, 'w) test = "'w \<Rightarrow> 'a outcome \<times> event list \<times> string list \<times> 'w"

definition ret :: "'a \<Rightarrow> ('a, 'w) test" where
  "ret a w = (Returned a, [], [], w)"

definition andThen :: "('a, 'w) test \<Rightarrow> ('a \<Rightarrow> ('b, 'w) test) \<Rightarrow> ('b, 'w) test" where
  "andThen m f w =
     (case m w of
        (Returned a, es, ms, w1) \<Rightarrow>
          (case f a w1 of (r, es2, ms2, w2) \<Rightarrow> (r, es @ es2, ms @ ms2, w2))
      | (Goexit, es, ms, w1) \<Rightarrow> (Goexit, es, ms, w1)
      | (Running, es, ms, w1) \<Rightarrow> (Running, es, ms, w1)
      | (Panic, es, ms, w1) \<Rightarrow> (Panic, es, ms, w1)
      | (Blocked, es, ms, w1) \<Rightarrow> (Blocked, es, ms, w1))"

text \<open>A call whose only result is an error, and a call with a value and an error.\<close>

definition callE :: "call \<Rightarrow> ('w \<Rightarrow> error \<times> 'w) \<Rightarrow> (error, 'w) test" where
  "callE c f w = (case f w of (err, w1) \<Rightarrow> (Returned err, [(c, err)], [], w1))"

definition callV :: "call \<Rightarrow> ('w \<Rightarrow> ('a \<times> error) \<times> 'w) \<Rightarrow> ('a \<times> error, 'w) test" where
  "callV c f w = (case f w of ((v, err), w1) \<Rightarrow> (Returned (v, err), [(c, err)], [], w1))"

definition event :: "call \<Rightarrow> (unit, 'w) test" where
  "event c w = (Returned (), [(c, [])], [], w)"

text \<open>
  \<^verbatim>\<open>require\<close> logs the message and stops the test function; \<^verbatim>\<open>assert\<close> logs the message
  and goes on; \<^verbatim>\<open>t.Skip\<close> stops the test function without a failure.
\<close>

definition require :: "bool \<Rightarrow> string \<Rightarrow> (unit, 'w) test" where
  "require ok msg w = (if ok then (Returned (), [], [], w) else (Goexit, [], [msg], w))"

definition assert :: "bool \<Rightarrow> string \<Rightarrow> (unit, 'w) test" where
  "assert ok msg w = (Returned (), [], if ok then [] else [msg], w)"

definition skip :: "(unit, 'w) test" where
  "skip w = (Goexit, [], [], w)"

text \<open>
  \<^verbatim>\<open>t.Run\<close> runs a subtest to its end and returns to the caller, also when the subtest
  left through \<^verbatim>\<open>Goexit\<close>; the failures of the subtest are failures of the parent. A
  panic in the subtest ends the test binary, and the caller of a subtest that never
  ends never goes on.
\<close>

definition t_Run :: "('a, 'w) test \<Rightarrow> (unit, 'w) test" where
  "t_Run body w =
     (case body w of
        (Returned a, es, ms, w1) \<Rightarrow> (Returned (), es, ms, w1)
      | (Goexit, es, ms, w1) \<Rightarrow> (Returned (), es, ms, w1)
      | (Running, es, ms, w1) \<Rightarrow> (Running, es, ms, w1)
      | (Panic, es, ms, w1) \<Rightarrow> (Panic, es, ms, w1)
      | (Blocked, es, ms, w1) \<Rightarrow> (Blocked, es, ms, w1))"

text \<open>
  A deferred call runs when the function ends: on return, on \<^verbatim>\<open>Goexit\<close> and on a panic
  alike, not while the function is still running or blocked. When the deferred call
  returns, the function ends the way its body did; when it panics, the panic stands.
\<close>

definition deferring :: "(unit, 'w) test \<Rightarrow> ('a, 'w) test \<Rightarrow> ('a, 'w) test" where
  "deferring d body w =
     (case body w of
        (Running, es, ms, w1) \<Rightarrow> (Running, es, ms, w1)
      | (Blocked, es, ms, w1) \<Rightarrow> (Blocked, es, ms, w1)
      | (r, es, ms, w1) \<Rightarrow>
          (case d w1 of
             (Returned u, es2, ms2, w2) \<Rightarrow> (r, es @ es2, ms @ ms2, w2)
           | (Goexit, es2, ms2, w2) \<Rightarrow> (Goexit, es @ es2, ms @ ms2, w2)
           | (Running, es2, ms2, w2) \<Rightarrow> (Running, es @ es2, ms @ ms2, w2)
           | (Panic, es2, ms2, w2) \<Rightarrow> (Panic, es @ es2, ms @ ms2, w2)
           | (Blocked, es2, ms2, w2) \<Rightarrow> (Blocked, es @ es2, ms @ ms2, w2)))"

subsection \<open>The wait group, lines 83, 151, 215 and 219\<close>

text \<open>
  The state of a run of \<^verbatim>\<open>runTest\<close>: the world of the service and the counter of the
  \<^verbatim>\<open>sync.WaitGroup\<close> named \<^verbatim>\<open>run\<close>, zero when declared. A part of the test that does
  not touch the wait group acts on the world alone.
\<close>

record 'w process =
  world :: 'w
  run :: int

definition onWorld :: "('a, 'w) test \<Rightarrow> ('a, 'w process) test" where
  "onWorld m s = (case m (world s) of (r, es, ms, w1) \<Rightarrow> (r, es, ms, s\<lparr>world := w1\<rparr>))"

text \<open>
  \<^verbatim>\<open>run.Add(1)\<close> adds one to the counter. \<^verbatim>\<open>run.Done()\<close> takes one off and panics when
  the counter becomes negative. \<^verbatim>\<open>run.Wait()\<close> returns when the counter is zero.

  While \<^verbatim>\<open>runTest\<close> is in \<^verbatim>\<open>run.Wait()\<close> no goroutine of the test calls
  \<^verbatim>\<open>run.Done()\<close>: the only call is the one deferred in the Run subtest, inside the
  Handle Activity subtest, and that subtest has called \<^verbatim>\<open>t.Parallel()\<close> (line 122), so
  the testing package suspends it until the function of its parent test, which is
  the caller of \<^verbatim>\<open>runTest\<close>, has returned. A \<^verbatim>\<open>Wait\<close> on a counter that is not zero
  therefore never returns.
\<close>

definition run_Add :: "(unit, 'w process) test" where
  "run_Add s = (Returned (), [(RunAdd, [])], [], s\<lparr>run := run s + 1\<rparr>)"

definition run_Done :: "(unit, 'w process) test" where
  "run_Done s =
     (if run s - 1 < 0 then (Panic, [(RunDone, [])], [], s\<lparr>run := run s - 1\<rparr>)
      else (Returned (), [(RunDone, [])], [], s\<lparr>run := run s - 1\<rparr>))"

definition run_Wait :: "(unit, 'w process) test" where
  "run_Wait s =
     (if run s = 0 then (Returned (), [(RunWait, [])], [], s)
      else (Blocked, [(RunWait, [])], [], s))"

subsection \<open>The trial loop, lines 174 to 185\<close>

text \<open>
  The Go loop has no bound; \<open>fuel\<close> is the number of iterations granted, and a loop
  that has used them up is \<open>Running\<close>.
\<close>

fun trialLoop :: "nat \<Rightarrow> 'w API \<Rightarrow> TestDefinition \<Rightarrow> Experiment \<Rightarrow> (unit, 'w) test" where
  "trialLoop 0 api td exp = (\<lambda>w. (Running, [], [], w))"
| "trialLoop (Suc fuel) api td exp =
     andThen (callV (CallNextTrial (Link exp RelationNextTrial))
                (NextTrial api (Link exp RelationNextTrial)))
       (\<lambda>(ta, err).
          if experimentStopped err then ret ()
          else
            andThen (require (err = []) ''failed to fetch trial assignments'') (\<lambda>_.
            andThen (assert (Location ta \<noteq> []) ''missing location'') (\<lambda>_.
            andThen (callE (CallReportTrial (Location ta) (TrialResults td ta))
                       (ReportTrial api (Location ta) (TrialResults td ta))) (\<lambda>err.
            andThen (require (err = []) ''failed to report trial'') (\<lambda>_.
            trialLoop fuel api td exp)))))"

subsection \<open>The Run subtest, lines 150 to 186\<close>

text \<open>
  The template fetched at line 154 and the trial returned by \<^verbatim>\<open>CreateTrial\<close> are
  discarded by the test, so the model keeps only the errors of these two calls. The
  five \<^verbatim>\<open>assert\<close> lines only log: the two label comparisons are taken as comparisons
  of the strings.
\<close>

definition baselineTrial :: "TestDefinition \<Rightarrow> TrialAssignments" where
  "baselineTrial td =
     \<lparr>Location = [], Title = [], Links = [],
      Labels = [(''baseline'', ''true'')], Assignments = Baseline td\<rparr>"

definition newName :: "'w API \<Rightarrow> (string, 'w) test" where
  "newName api w = (Returned (newExperimentName (UnixNano api w) (RandBytes api w)), [], [], w)"

definition runBody ::
  "nat \<Rightarrow> 'w API \<Rightarrow> TestDefinition \<Rightarrow> Resource \<Rightarrow> Resource \<Rightarrow> (unit, 'w) test" where
  "runBody fuel api td scn app =
     andThen (callE (CallGetTemplate (Link scn RelationTemplate))
                (GetTemplate api (Link scn RelationTemplate))) (\<lambda>err.
     andThen (require (err = []) ''failed to retrieve scenario template'') (\<lambda>_.
     andThen (ret (NewAPIWithEndpoint api (Link scn RelationExperiments))) (\<lambda>err.
     andThen (require (err = []) ''failed to create experiment API for application'') (\<lambda>_.
     andThen (newName api) (\<lambda>name.
     andThen (callV (CallCreateExperimentByName (Link scn RelationExperiments) name
                       (ExperimentDef td))
                (CreateExperimentByName api (Link scn RelationExperiments) name
                       (ExperimentDef td))) (\<lambda>(exp, err).
     andThen (require (err = []) ''failed to create experiment'') (\<lambda>_.
     andThen (assert (Link exp RelationTrials \<noteq> []) ''missing trials link'') (\<lambda>_.
     andThen (assert (Link exp RelationNextTrial \<noteq> []) ''missing next trial link'') (\<lambda>_.
     andThen (assert (Link exp RelationSelf \<noteq> []) ''missing self link'') (\<lambda>_.
     andThen (assert (Name app = label (ExperimentLabels exp) ''application'')
                ''incorrect application label'') (\<lambda>_.
     andThen (assert (Name scn = label (ExperimentLabels exp) ''scenario'')
                ''incorrect scenario label'') (\<lambda>_.
     andThen (callE (CallCreateTrial (Link exp RelationTrials) (baselineTrial td))
                (CreateTrial api (Link exp RelationTrials) (baselineTrial td))) (\<lambda>err.
     andThen (require (err = []) ''failed to create baseline trial'') (\<lambda>_.
     trialLoop fuel api td exp))))))))))))))"

text \<open>Line 151: the subtest defers \<^verbatim>\<open>run.Done()\<close> before anything else.\<close>

definition runSubtest ::
  "nat \<Rightarrow> 'w API \<Rightarrow> TestDefinition \<Rightarrow> Resource \<Rightarrow> Resource \<Rightarrow> (unit, 'w process) test"
  where
  "runSubtest fuel api td scn app = deferring run_Done (onWorld (runBody fuel api td scn app))"

subsection \<open>The Scan subtest, lines 144 to 147\<close>

definition scanSubtest :: "'w API \<Rightarrow> TestDefinition \<Rightarrow> Resource \<Rightarrow> (unit, 'w) test" where
  "scanSubtest api td scn =
     andThen (callE (CallUpdateTemplate (Link scn RelationTemplate) (GenerateTemplate td))
                (UpdateTemplate api (Link scn RelationTemplate) (GenerateTemplate td))) (\<lambda>err.
     require (err = []) ''failed to update template'')"

subsection \<open>The consumer of the activity channel, lines 127 to 191\<close>

text \<open>The steps before the switch: the scenario and the application of the item.\<close>

definition lookupItem :: "'w API \<Rightarrow> ActivityItem \<Rightarrow> (Resource \<times> Resource, 'w) test" where
  "lookupItem api ai =
     andThen (assert (HasTag ai TagScan \<or> HasTag ai TagRun) ''unexpected item tag'') (\<lambda>_.
     andThen (callV (CallGetScenario (ExternalURL ai)) (GetScenario api (ExternalURL ai)))
       (\<lambda>(scn, err).
     andThen (require (err = []) ''failed to retrieve activity scenario'') (\<lambda>_.
     andThen (require (Link scn RelationTemplate \<noteq> []) ''missing template link'') (\<lambda>_.
     andThen (require (Link scn RelationExperiments \<noteq> []) ''missing experiments link'') (\<lambda>_.
     andThen (require (Link scn RelationUp \<noteq> []) ''missing application link'') (\<lambda>_.
     andThen (callV (CallGetApplication (Link scn RelationUp))
                (GetApplication api (Link scn RelationUp))) (\<lambda>(app, err).
     andThen (require (err = []) ''failed to retrieve scenario application'') (\<lambda>_.
     ret (scn, app)))))))))"

text \<open>The switch, lines 141 to 187: the first matching case runs its subtest.\<close>

definition dispatch ::
  "nat \<Rightarrow> 'w API \<Rightarrow> TestDefinition \<Rightarrow> ActivityItem \<Rightarrow> Resource \<Rightarrow> Resource
     \<Rightarrow> (unit, 'w process) test"
  where
  "dispatch fuel api td ai scn app =
     (if HasTag ai TagScan then t_Run (onWorld (scanSubtest api td scn))
      else if HasTag ai TagRun then t_Run (runSubtest fuel api td scn app)
      else ret ())"

text \<open>The acknowledgement, lines 189 and 190.\<close>

definition acknowledge :: "'w API \<Rightarrow> ActivityItem \<Rightarrow> (unit, 'w) test" where
  "acknowledge api ai =
     andThen (callE (CallDeleteActivity (URL ai)) (DeleteActivity api (URL ai))) (\<lambda>err.
     require (err = []) ''failed to acknowledge activity'')"

text \<open>The body of the range loop, lines 128 to 190.\<close>

definition handleItem ::
  "nat \<Rightarrow> 'w API \<Rightarrow> TestDefinition \<Rightarrow> ActivityItem \<Rightarrow> (unit, 'w process) test" where
  "handleItem fuel api td ai =
     andThen (onWorld (lookupItem api ai)) (\<lambda>(scn, app).
     andThen (dispatch fuel api td ai scn app) (\<lambda>_.
     onWorld (acknowledge api ai)))"

text \<open>
  \<^verbatim>\<open>for ai := range activity\<close>: the items are those the channel yields before it is
  closed, in order; each loop of a Run subtest is granted \<open>fuel\<close> iterations. The
  subtest skips when an earlier subtest has failed (\<open>ok\<close> is false).
\<close>

fun handleActivity ::
  "nat \<Rightarrow> 'w API \<Rightarrow> TestDefinition \<Rightarrow> ActivityItem list \<Rightarrow> (unit, 'w process) test" where
  "handleActivity fuel api td [] = ret ()"
| "handleActivity fuel api td (ai # items) =
     andThen (handleItem fuel api td ai) (\<lambda>_. handleActivity fuel api td items)"

definition handleActivitySubtest ::
  "bool \<Rightarrow> nat \<Rightarrow> 'w API \<Rightarrow> TestDefinition \<Rightarrow> ActivityItem list \<Rightarrow> (unit, 'w process) test"
  where
  "handleActivitySubtest ok fuel api td items =
     andThen (if \<not> ok then skip else ret ()) (\<lambda>_. handleActivity fuel api td items)"

subsection \<open>The Request Activity subtest, lines 194 to 216\<close>

definition requestActivity :: "bool \<Rightarrow> 'w API \<Rightarrow> Metadata \<Rightarrow> (unit, 'w process) test" where
  "requestActivity ok api scnMeta =
     andThen (if \<not> ok then skip else ret ()) (\<lambda>_.
     andThen (onWorld (callV CallListApplications (ListApplications api))) (\<lambda>(lst, err).
     andThen (require (err = [])
                ''failed to fetch the application list necessary for the feed URL'') (\<lambda>_.
     andThen (onWorld (callE (CallCreateActivity (Link lst RelationAlternate)
                                (ScanActivity (Location scnMeta)))
                (CreateActivity api (Link lst RelationAlternate)
                                (ScanActivity (Location scnMeta))))) (\<lambda>err.
     andThen (require (err = []) ''failed to request scan'') (\<lambda>_.
     andThen (onWorld (callE (CallCreateActivity (Link lst RelationAlternate)
                                (RunActivity (Location scnMeta)))
                (CreateActivity api (Link lst RelationAlternate)
                                (RunActivity (Location scnMeta))))) (\<lambda>err.
     andThen (require (err = []) ''failed to request run'') (\<lambda>_.
     run_Add)))))))"

subsection \<open>The Delete Application subtest, lines 222 to 231\<close>

definition deleteApplicationSubtest :: "'w API \<Rightarrow> Metadata \<Rightarrow> (unit, 'w) test" where
  "deleteApplicationSubtest api appMeta =
     andThen (if Location appMeta = [] then skip else ret ()) (\<lambda>_.
     andThen (callE (CallDeleteApplication (Location appMeta))
                (DeleteApplication api (Location appMeta))) (\<lambda>err.
     require (err = []) ''failed to delete application''))"

subsection \<open>The run of runTest from line 121 on\<close>

text \<open>
  The first three subtests leave the flag \<^verbatim>\<open>ok\<close> and the metadata \<^verbatim>\<open>appMeta\<close> and
  \<^verbatim>\<open>scnMeta\<close>; \<open>items\<close> are the items the channel \<^verbatim>\<open>activity\<close> yields before it is
  closed. The Handle Activity subtest is started at line 121 and calls \<^verbatim>\<open>t.Parallel()\<close>
  at once, so \<^verbatim>\<open>t.Run\<close> returns and the rest of its body runs only after \<^verbatim>\<open>runTest\<close>
  has returned: after the Request Activity subtest, \<^verbatim>\<open>run.Wait()\<close>, \<^verbatim>\<open>cancelSub()\<close>
  and the Delete Application subtest.
\<close>

definition runTest ::
  "bool \<Rightarrow> nat \<Rightarrow> 'w API \<Rightarrow> TestDefinition \<Rightarrow> Metadata \<Rightarrow> Metadata \<Rightarrow> ActivityItem list
     \<Rightarrow> (unit, 'w process) test" where
  "runTest ok fuel api td appMeta scnMeta items =
     andThen (t_Run (requestActivity ok api scnMeta)) (\<lambda>_.
     andThen run_Wait (\<lambda>_.
     andThen (event CancelSub) (\<lambda>_.
     andThen (t_Run (onWorld (deleteApplicationSubtest api appMeta))) (\<lambda>_.
     t_Run (handleActivitySubtest ok fuel api td items)))))"

section \<open>The delete commands (pkg/command/experiments.go)\<close>

text \<open>
  What the two delete commands use of their surroundings: the client constructor, the
  lookup of a named item, the delete calls, the printer and the not-found test of the
  lister. A visitor yields the error it returns and the actions it performed.
\<close>

datatype action =
  DeleteExperimentCall url
  | DeleteApplicationCall url
  | Printed string

record 'w Service =
  NewClient :: error
  GetExperimentByName :: "string \<Rightarrow> 'w \<Rightarrow> (Resource \<times> error) \<times> 'w"
  GetApplicationByName :: "string \<Rightarrow> 'w \<Rightarrow> (Resource \<times> error) \<times> 'w"
  DeleteExperiment :: "url \<Rightarrow> 'w \<Rightarrow> error \<times> 'w"
  DeleteApplication :: "url \<Rightarrow> 'w \<Rightarrow> error \<times> 'w"
  Fprint :: "Resource \<Rightarrow> 'w \<Rightarrow> error \<times> 'w"
  IsNotFound :: "error \<Rightarrow> bool"

type_synonym 'w visitor = "Resource \<Rightarrow> 'w \<Rightarrow> error \<times> action list \<times> 'w"

text \<open>The visitor of \<^verbatim>\<open>NewDeleteExperimentsCommand\<close>, lines 95 to 107.\<close>

definition deleteExperimentVisitor :: "'w Service \<Rightarrow> 'w visitor" where
  "deleteExperimentVisitor svc item w =
     (let selfURL = Link item RelationSelf in
      if selfURL = [] then ([], [], w)
      else
        (case DeleteExperiment svc selfURL w of (err, w1) \<Rightarrow>
           if err \<noteq> [] then (err, [DeleteExperimentCall selfURL], w1)
           else
             (case Fprint svc item w1 of (perr, w2) \<Rightarrow>
                (perr, [DeleteExperimentCall selfURL, Printed (Name item)], w2))))"

text \<open>The visitor of \<^verbatim>\<open>NewDeleteApplicationsCommand\<close>, lines 424 to 435.\<close>

definition malformedResponse :: error where
  "malformedResponse = [OtherError ''malformed response, missing self link'']"

definition deleteApplicationVisitor :: "'w Service \<Rightarrow> 'w visitor" where
  "deleteApplicationVisitor svc item w =
     (let selfURL = Link item RelationSelf in
      if selfURL = [] then (malformedResponse, [], w)
      else
        (case DeleteApplication svc selfURL w of (err, w1) \<Rightarrow>
           if err \<noteq> [] then (err, [DeleteApplicationCall selfURL], w1)
           else
             (case Fprint svc item w1 of (perr, w2) \<Rightarrow>
                (perr, [DeleteApplicationCall selfURL, Printed (Name item)], w2))))"

text \<open>
  Modelled from the spec: \<^verbatim>\<open>ForEachNamedExperiment\<close> and \<^verbatim>\<open>ForEachNamedApplication\<close> of
  the two \<^verbatim>\<open>Lister\<close> types are in packages outside the two source files. Section 4.1 of the
  specification: for each name, in input order, the named resource is resolved; a
  not-found failure is skipped when \<^verbatim>\<open>ignoreNotFound\<close> is set, any other failure is
  returned and the remaining names are abandoned; the visitor is called on the
  resolved item, and an error it returns stops the iteration and is returned.
\<close>

fun ForEachNamed ::
  "(string \<Rightarrow> 'w \<Rightarrow> (Resource \<times> error) \<times> 'w) \<Rightarrow> (error \<Rightarrow> bool) \<Rightarrow> string list \<Rightarrow> bool
     \<Rightarrow> 'w visitor \<Rightarrow> 'w \<Rightarrow> error \<times> action list \<times> 'w" where
  "ForEachNamed get notFound [] ignoreNotFound visit w = ([], [], w)"
| "ForEachNamed get notFound (name # names) ignoreNotFound visit w =
     (case get name w of ((item, err), w1) \<Rightarrow>
        if err \<noteq> []
        then (if ignoreNotFound \<and> notFound err
              then ForEachNamed get notFound names ignoreNotFound visit w1
              else (err, [], w1))
        else
          (case visit item w1 of (verr, acts, w2) \<Rightarrow>
             if verr \<noteq> [] then (verr, acts, w2)
             else
               (case ForEachNamed get notFound names ignoreNotFound visit w2 of
                  (rerr, racts, w3) \<Rightarrow> (rerr, acts @ racts, w3))))"

text \<open>The two \<^verbatim>\<open>RunE\<close> functions, lines 84 to 108 and 413 to 436.\<close>

definition deleteExperiments ::
  "'w Service \<Rightarrow> bool \<Rightarrow> string list \<Rightarrow> 'w \<Rightarrow> error \<times> action list \<times> 'w" where
  "deleteExperiments svc ignoreNotFound args w =
     (if NewClient svc \<noteq> [] then (NewClient svc, [], w)
      else ForEachNamed (GetExperimentByName svc) (IsNotFound svc) args ignoreNotFound
             (deleteExperimentVisitor svc) w)"

definition deleteApplications ::
  "'w Service \<Rightarrow> bool \<Rightarrow> string list \<Rightarrow> 'w \<Rightarrow> error \<times> action list \<times> 'w" where
  "deleteApplications svc ignoreNotFound args w =
     (if NewClient svc \<noteq> [] then (NewClient svc, [], w)
      else ForEachNamed (GetApplicationByName svc) (IsNotFound svc) args ignoreNotFound
             (deleteApplicationVisitor svc) w)"

text \<open>
  A scripted service: the item named \<open>orphan\<close> carries no self link, every other name
  resolves to an item whose self link is \<open>/items/\<close> followed by the name, and every
  request succeeds. Its world counts the delete requests received.
\<close>

definition demoItem :: "string \<Rightarrow> Resource" where
  "demoItem name =
     \<lparr>Location = [], Title = [],
      Links = (if name = ''orphan'' then [] else [(RelationSelf, ''/items/'' @ name)]),
      Name = name\<rparr>"

definition demoService :: "nat Service" where
  "demoService =
     \<lparr>NewClient = [],
      GetExperimentByName = (\<lambda>name w. ((demoItem name, []), w)),
      GetApplicationByName = (\<lambda>name w. ((demoItem name, []), w)),
      DeleteExperiment = (\<lambda>u w. ([], Suc w)),
      DeleteApplication = (\<lambda>u w. ([], Suc w)),
      Fprint = (\<lambda>item w. ([], w)),
      IsNotFound = (\<lambda>err. False)\<rparr>"

section \<open>The activity subscription\<close>

text \<open>
  The channel \<^verbatim>\<open>activity\<close> as the consumer sees it: the items sent on it so far, in
  order, and whether it has been closed.
\<close>

record Channel =
  sent :: "ActivityItem list"
  closed :: bool

definition send :: "Channel \<Rightarrow> ActivityItem \<Rightarrow> Channel" where
  "send ch item = ch\<lparr>sent := sent ch @ [item]\<rparr>"

definition close :: "Channel \<Rightarrow> Channel" where
  "close ch = ch\<lparr>closed := True\<rparr>"

text \<open>
  Modelled from the spec: \<^verbatim>\<open>Subscribe\<close> of the subscription returned by
  \<^verbatim>\<open>SubscribeActivity\<close> is in a package outside the two source files. Sections 4.3 and 5 of the
  specification: the delivery loop fetches the current feed pages once per cycle and
  pushes each item onto the channel in feed order, with no reordering and no
  deduplication; cancellation is checked between fetch cycles; on cancellation the loop
  exits and closes the channel. \<open>cycles\<close> is the number of fetch cycles that start
  before the cancellation is observed; a cycle after the last poll of the feed finds
  no item.
\<close>

fun deliveryLoop :: "nat \<Rightarrow> ActivityItem list list list \<Rightarrow> Channel \<Rightarrow> Channel" where
  "deliveryLoop 0 polls ch = close ch"
| "deliveryLoop (Suc cycles) [] ch = deliveryLoop cycles [] ch"
| "deliveryLoop (Suc cycles) (pages # polls) ch =
     deliveryLoop cycles polls (foldl send ch (concat pages))"

text \<open>
  The Subscribe subtest, lines 85 to 96: the channel is made; when the subscription is
  created the delivery starts, otherwise the failure is logged and the channel is
  closed at once.
\<close>

definition subscribe :: "error \<Rightarrow> nat \<Rightarrow> ActivityItem list list list \<Rightarrow> Channel \<times> string list" where
  "subscribe err cycles polls =
     (let activity = \<lparr>sent = [], closed = False\<rparr> in
      if err = [] then (deliveryLoop cycles polls activity, [])
      else (close activity, [''failed to create activity subscriber'']))"

text \<open>
  \<^verbatim>\<open>for ai := range activity\<close>, line 127: the loop receives every item sent and ends
  when the channel is closed; on a channel that is never closed it does not end.
\<close>

definition rangeOver :: "Channel \<Rightarrow> ActivityItem list option" where
  "rangeOver ch = (if closed ch then Some (sent ch) else None)"

section \<open>Auxiliary definitions\<close>

text \<open>
  Auxiliary notions for the analysis of the names. \<open>lead w r\<close> is the 64-bit value whose
  bits 63 to 14 are the fifty bits the first ten characters encode: the low 48 bits of
  the millisecond count \<open>w\<close>, then the two top bits of the first random byte.
  \<open>slices n x\<close> lists the \<open>n\<close> lowest base-32 digits of \<open>x\<close>, most significant first.
\<close>

definition lead :: "64 word \<Rightarrow> byte \<Rightarrow> 64 word" where
  "lead w r = push_bit 16 w OR push_bit 14 (ucast (drop_bit 6 r))"

fun slices :: "nat \<Rightarrow> nat \<Rightarrow> nat list" where
  "slices 0 x = []"
| "slices (Suc n) x = slices n (x div 32) @ [x mod 32]"

definition zeroBytes :: "nat \<Rightarrow> byte" where
  "zeroBytes i = 0"


subsection \<open>Predicates on events\<close>

fun isNextTrial :: "call \<Rightarrow> bool" where
  "isNextTrial (CallNextTrial u) = True"
| "isNextTrial c = False"

fun isTrialCall :: "call \<Rightarrow> bool" where
  "isTrialCall (CallCreateTrial u ta) = True"
| "isTrialCall (CallNextTrial u) = True"
| "isTrialCall (CallReportTrial u v) = True"
| "isTrialCall c = False"

fun isCreateTrial :: "call \<Rightarrow> bool" where
  "isCreateTrial (CallCreateTrial u ta) = True"
| "isCreateTrial c = False"

text \<open>The event on which the loop breaks: a \<^verbatim>\<open>NextTrial\<close> whose error is the stop signal.\<close>

definition stopSignal :: "event \<Rightarrow> bool" where
  "stopSignal e = (isNextTrial (fst e) \<and> experimentStopped (snd e))"

text \<open>The URLs acknowledged by a run, in order, one entry per \<^verbatim>\<open>DeleteActivity\<close> call.\<close>

fun ackOf :: "event \<Rightarrow> url list" where
  "ackOf (CallDeleteActivity u, e) = [u]"
| "ackOf other = []"

definition acks :: "event list \<Rightarrow> url list" where
  "acks evs = concat (map ackOf evs)"

text \<open>\<open>emits Q m\<close>: every event of every run of \<open>m\<close> satisfies \<open>Q\<close>.\<close>

definition emits :: "(event \<Rightarrow> bool) \<Rightarrow> ('a, 'w) test \<Rightarrow> bool" where
  "emits Q m = (\<forall>w. list_all Q (fst (snd (m w))))"

fun isDeleteActivity :: "call \<Rightarrow> bool" where
  "isDeleteActivity (CallDeleteActivity u) = True"
| "isDeleteActivity c = False"

text \<open>
  The calls a Run subtest makes, with its deferred \<^verbatim>\<open>run.Done()\<close>, and the operations
  on the wait group and the subscription.
\<close>

fun isRunCall :: "call \<Rightarrow> bool" where
  "isRunCall (CallGetTemplate u) = True"
| "isRunCall (CallCreateExperimentByName u n e) = True"
| "isRunCall (CallCreateTrial u ta) = True"
| "isRunCall (CallNextTrial u) = True"
| "isRunCall (CallReportTrial u v) = True"
| "isRunCall RunDone = True"
| "isRunCall c = False"

fun isGroupCall :: "call \<Rightarrow> bool" where
  "isGroupCall RunAdd = True"
| "isGroupCall RunDone = True"
| "isGroupCall RunWait = True"
| "isGroupCall CancelSub = True"
| "isGroupCall c = False"

text \<open>The events of a run that precede \<^verbatim>\<open>cancelSub()\<close>: all of them when it is not reached.\<close>

definition beforeCancel :: "event list \<Rightarrow> event list" where
  "beforeCancel evs = takeWhile (\<lambda>e. fst e \<noteq> CancelSub) evs"

text \<open>
  \<open>finishes m\<close>: every run of \<open>m\<close> returns or leaves through \<^verbatim>\<open>Goexit\<close>.
  \<open>safe m\<close>: no run of \<open>m\<close> panics or blocks.
\<close>

definition finishes :: "('a, 'w) test \<Rightarrow> bool" where
  "finishes m = (\<forall>w. fst (m w) \<noteq> Running \<and> fst (m w) \<noteq> Panic \<and> fst (m w) \<noteq> Blocked)"

definition safe :: "('a, 'w) test \<Rightarrow> bool" where
  "safe m = (\<forall>w. fst (m w) \<noteq> Panic \<and> fst (m w) \<noteq> Blocked)"

subsection \<open>A scripted service for concrete runs\<close>

text \<open>
  The world of the scripted service is the number of trials it has handed out; it
  reports the experiment as stopped once \<open>limit\<close> trials are out, and every other
  request succeeds.
\<close>

definition demoScenario :: Resource where
  "demoScenario =
     \<lparr>Location = ''/scn'', Title = ''scenario'',
      Links = [(RelationTemplate, ''/scn/template''), (RelationExperiments, ''/scn/experiments''),
               (RelationUp, ''/app'')],
      Name = ''scn''\<rparr>"

definition demoApplication :: Resource where
  "demoApplication =
     \<lparr>Location = ''/app'', Title = ''application'',
      Links = [(RelationScenarios, ''/app/scenarios'')], Name = ''app''\<rparr>"

definition demoExperiment :: Experiment where
  "demoExperiment =
     \<lparr>Location = ''/exp'', Title = [],
      Links = [(RelationSelf, ''/exp''), (RelationTrials, ''/exp/trials''),
               (RelationNextTrial, ''/exp/next'')],
      ExperimentLabels = [(''application'', ''app''), (''scenario'', ''scn'')]\<rparr>"

definition demoTrial :: TrialAssignments where
  "demoTrial =
     \<lparr>Location = ''/exp/trials/1'', Title = [], Links = [],
      Labels = [], Assignments = [(''cpu'', ''2'')]\<rparr>"

definition noTrial :: TrialAssignments where
  "noTrial = \<lparr>Location = [], Title = [], Links = [], Labels = [], Assignments = []\<rparr>"

definition demoFeed :: Metadata where
  "demoFeed = \<lparr>Location = ''/apps'', Title = [], Links = [(RelationAlternate, ''/feed'')]\<rparr>"

definition demoTd :: TestDefinition where
  "demoTd =
     \<lparr>ApplicationDef = ''app'', ScenarioDef = ''scn'', ExperimentDef = ''exp'',
      Baseline = [(''cpu'', ''1'')], GenerateTemplate = ''template'',
      TrialResults = (\<lambda>ta. ''values'')\<rparr>"

definition demoAPI :: "nat \<Rightarrow> nat API" where
  "demoAPI limit =
     \<lparr>GetScenario = (\<lambda>u w. ((demoScenario, []), w)),
      GetApplication = (\<lambda>u w. ((demoApplication, []), w)),
      UpdateTemplate = (\<lambda>u t w. ([], w)),
      GetTemplate = (\<lambda>u w. ([], w)),
      NewAPIWithEndpoint = (\<lambda>u. []),
      CreateExperimentByName = (\<lambda>u n e w. ((demoExperiment, []), w)),
      CreateTrial = (\<lambda>u ta w. ([], w)),
      NextTrial = (\<lambda>u w. if w < limit then ((demoTrial, []), Suc w)
                          else ((noTrial, [ApiError ErrExperimentStopped]), w)),
      ReportTrial = (\<lambda>u v w. ([], w)),
      DeleteActivity = (\<lambda>u w. ([], w)),
      ListApplications = (\<lambda>w. ((demoFeed, []), w)),
      CreateActivity = (\<lambda>u a w. ([], w)),
      API.DeleteApplication = (\<lambda>u w. ([], w)),
      UnixNano = (\<lambda>w. 1700000000000000000),
      RandBytes = (\<lambda>w. zeroBytes)\<rparr>"

definition unavailable :: error where
  "unavailable = [OtherError ''503 Service Unavailable'']"

text \<open>Three services that refuse one request each.\<close>

definition unavailableScenario :: "nat API" where
  "unavailableScenario = (demoAPI 0)\<lparr>GetScenario := \<lambda>u w. ((demoScenario, unavailable), w)\<rparr>"

definition unavailableDelete :: "nat API" where
  "unavailableDelete = (demoAPI 0)\<lparr>DeleteActivity := \<lambda>u w. (unavailable, w)\<rparr>"

definition unavailableRun :: "nat API" where
  "unavailableRun =
     (demoAPI 0)\<lparr>CreateActivity :=
        \<lambda>u a w. (case a of ScanActivity x \<Rightarrow> [] | RunActivity x \<Rightarrow> unavailable, w)\<rparr>"

definition demoAppMeta :: Metadata where
  "demoAppMeta =
     \<lparr>Location = ''/app'', Title = ''application'', Links = [(RelationScenarios, ''/app/scenarios'')]\<rparr>"

definition demoScnMeta :: Metadata where
  "demoScnMeta = \<lparr>Location = ''/scn'', Title = ''scenario'', Links = [(RelationUp, ''/app'')]\<rparr>"

definition scanItem :: ActivityItem where
  "scanItem = \<lparr>URL = ''/feed/1'', ExternalURL = ''/scn'', Tags = [TagScan]\<rparr>"

definition runItem :: ActivityItem where
  "runItem = \<lparr>URL = ''/feed/2'', ExternalURL = ''/scn'', Tags = [TagRun]\<rparr>"

definition rescanItem :: ActivityItem where
  "rescanItem = \<lparr>URL = ''/feed/3'', ExternalURL = ''/scn'', Tags = [TagScan]\<rparr>"

text \<open>The start of a run: no trial handed out, the counter of the wait group at zero.\<close>

definition start :: "nat process" where
  "start = \<lparr>world = 0, run = 0\<rparr>"

text \<open>A feed of two polls: the first has two pages of one item each, the second is empty.\<close>

definition demoPolls :: "ActivityItem list list list" where
  "demoPolls = ([scanItem] # [runItem] # []) # ([] # []) # []"


section \<open>Properties of resource normalisation\<close>

lemma normalizeResource_ok:
  "snd (normalizeResource r) \<longleftrightarrow>
     \<not> (Namespace r = [] \<and> Namespaces r = [] \<and> NamespaceSelector r = [])"
  by (simp add: normalizeResource_def Let_def)

text \<open>
  Claim C10. \<^verbatim>\<open>normalizeResource\<close> reports \<open>ok = False\<close> exactly when the namespace, the
  namespace list and the namespace selector are all empty; the label selector plays no
  part in the verdict; and a resource that carries only a label selector is appended
  neither by the create command nor by the edit command, which then leaves the fetched
  application and its update flag as they were.
\<close>

theorem normalizeResource_drops_selector_only:
  "(snd (normalizeResource r) = False) =
     (Namespace r = [] \<and> Namespaces r = [] \<and> NamespaceSelector r = [])
   \<and> snd (normalizeResource (r\<lparr>Selector := s\<rparr>)) = snd (normalizeResource r)
   \<and> createApplicationResources
        \<lparr>Namespace = [], Namespaces = [], NamespaceSelector = [], Selector = s\<rparr> = []
   \<and> editApplicationResources
        \<lparr>Namespace = [], Namespaces = [], NamespaceSelector = [], Selector = s\<rparr> st = st"
proof -
  let ?sel = "\<lparr>Namespace = [], Namespaces = [], NamespaceSelector = [], Selector = s\<rparr>"
  have dropped: "normalizeResource ?sel = (?sel, False)"
    by (simp add: normalizeResource_def)
  have a: "(snd (normalizeResource r) = False) =
     (Namespace r = [] \<and> Namespaces r = [] \<and> NamespaceSelector r = [])"
    using normalizeResource_ok [of r] by blast
  have b: "snd (normalizeResource (r\<lparr>Selector := s\<rparr>)) = snd (normalizeResource r)"
    by (simp add: normalizeResource_ok)
  have c: "createApplicationResources ?sel = []"
    by (simp add: createApplicationResources_def dropped)
  have d: "editApplicationResources ?sel st = st"
    by (cases st) (simp add: editApplicationResources_def dropped)
  from a b c d show ?thesis by blast
qed


section \<open>Properties of the generated names\<close>

lemma m31: "(31 :: byte) = mask 5" by (simp add: mask_eq_exp_minus_1)

lemma lt8_cases: "n < LENGTH(8) \<Longrightarrow> n \<in> {0, 1, 2, 3, 4, 5, 6, 7}"
  by simp arith

lemma bit_byte_high: "8 \<le> n \<Longrightarrow> \<not> bit (r :: byte) n"
  using bit_imp_le_length [of r n] by auto

lemma bit_byte_double: "bit ((x :: byte) * 2) n \<longleftrightarrow> 0 < n \<and> n < 8 \<and> bit x (n - 1)"
proof -
  have "bit (2 * x) n \<longleftrightarrow> 0 < n \<and> n < 8 \<and> bit x (n - 1)"
    unfolding bit_double_iff by (auto simp add: possible_bit_word)
  then show ?thesis by (simp add: mult.commute)
qed

lemma quantum5:
  "quantum [a, b, c, d, e] =
     [drop_bit 3 a,
      (push_bit 2 a AND 0x1F) OR (drop_bit 6 b AND 0x1F),
      drop_bit 1 b AND 0x1F,
      (push_bit 4 b AND 0x1F) OR (drop_bit 4 c AND 0x1F),
      (push_bit 1 c AND 0x1F) OR drop_bit 7 d,
      drop_bit 2 d AND 0x1F,
      (push_bit 3 d AND 0x1F) OR drop_bit 5 e,
      e AND 0x1F]"
  by (simp add: quantum_def Let_def)

lemma length_quantum: "length (quantum src) = 8"
  by (simp add: quantum_def Let_def)

lemma digits_of_lead:
  fixes w :: "64 word" and r :: byte
  defines "B \<equiv> \<lambda>k. (ucast (drop_bit k (push_bit 16 w)) :: byte)"
  defines "S \<equiv> \<lambda>k. (ucast (drop_bit k (lead w r)) AND 31 :: byte)"
  shows "drop_bit 3 (B 56) AND 31 = S 59"
    and "((push_bit 2 (B 56) AND 31) OR (drop_bit 6 (B 48) AND 31)) AND 31 = S 54"
    and "(drop_bit 1 (B 48) AND 31) AND 31 = S 49"
    and "((push_bit 4 (B 48) AND 31) OR (drop_bit 4 (B 40) AND 31)) AND 31 = S 44"
    and "((push_bit 1 (B 40) AND 31) OR drop_bit 7 (B 32)) AND 31 = S 39"
    and "(drop_bit 2 (B 32) AND 31) AND 31 = S 34"
    and "((push_bit 3 (B 32) AND 31) OR drop_bit 5 (B 24)) AND 31 = S 29"
    and "(B 24 AND 31) AND 31 = S 24"
    and "drop_bit 3 (B 16) AND 31 = S 19"
    and "((push_bit 2 (B 16) AND 31) OR (drop_bit 6 r AND 31)) AND 31 = S 14"
  unfolding B_def S_def
  by (rule bit_word_eqI, drule lt8_cases, simp only: insert_iff empty_iff simp_thms,
      (elim disjE; simp add: bit_simps lead_def m31 bit_byte_high bit_byte_double))+


lemma nameBytes_eq:
  "nameBytes ns rnd =
     [ucast (drop_bit 56 (timeField ns)), ucast (drop_bit 48 (timeField ns)),
      ucast (drop_bit 40 (timeField ns)), ucast (drop_bit 32 (timeField ns)),
      ucast (drop_bit 24 (timeField ns)), ucast (drop_bit 16 (timeField ns)),
      rnd 0, rnd 1, rnd 2, rnd 3, rnd 4, rnd 5, rnd 6, rnd 7, rnd 8, rnd 9]"
  by (simp add: nameBytes_def randRead_def PutUint64_def upt_rec numeral_eq_Suc)

lemma encodeChar_quantum_head:
  "take 2 (map (encodeChar al) (quantum (a # b # rest))) =
     [al ! unat (drop_bit 3 a AND 31),
      al ! unat (((push_bit 2 a AND 31) OR (drop_bit 6 b AND 31)) AND 31)]"
  by (simp add: quantum_def Let_def encodeChar_def)

lemma name_shape:
  fixes ns :: "64 word" and rnd :: "nat \<Rightarrow> byte"
  defines "L \<equiv> lead (word_of_int (unixMilli ns)) (rnd 0)"
  shows "\<exists>rest. length rest = 16 \<and>
     newExperimentName ns rnd =
       map (\<lambda>k. encodeStd ! unat (ucast (drop_bit k L) AND 31 :: byte))
         [59, 54, 49, 44, 39, 34, 29, 24, 19, 14] @ rest"
proof -
  let ?v = "push_bit 16 (word_of_int (unixMilli ns) :: 64 word)"
  let ?B = "\<lambda>k. (ucast (drop_bit k ?v) :: byte)"
  let ?q1 = "map (encodeChar encodeStd) (quantum [?B 56, ?B 48, ?B 40, ?B 32, ?B 24])"
  let ?q2 = "map (encodeChar encodeStd) (quantum [?B 16, rnd 0, rnd 1, rnd 2, rnd 3])"
  let ?q3 = "map (encodeChar encodeStd) (quantum [rnd 4, rnd 5, rnd 6, rnd 7, rnd 8])"
  let ?q4 = "take 2 (map (encodeChar encodeStd) (quantum [rnd 9]))"
  let ?rest = "drop 2 ?q2 @ ?q3 @ ?q4"
  have split: "newExperimentName ns rnd = (?q1 @ take 2 ?q2) @ ?rest"
    by (simp add: newExperimentName_def nameBytes_eq timeField_def del: drop_bit_push_bit)
  have len: "length ?rest = 16"
    by (simp add: length_quantum)
  note digs = digits_of_lead [where r = "rnd 0" and w = "word_of_int (unixMilli ns)"]
  have q1: "?q1 = map (\<lambda>k. encodeStd ! unat (ucast (drop_bit k L) AND 31 :: byte))
         [59, 54, 49, 44, 39, 34, 29, 24]"
    unfolding quantum5 L_def
    by (simp only: list.map encodeChar_def digs)
  have q2: "take 2 ?q2 = map (\<lambda>k. encodeStd ! unat (ucast (drop_bit k L) AND 31 :: byte)) [19, 14]"
    unfolding encodeChar_quantum_head L_def
    by (simp only: list.map digs)
  have "?q1 @ take 2 ?q2 = map (\<lambda>k. encodeStd ! unat (ucast (drop_bit k L) AND 31 :: byte))
         [59, 54, 49, 44, 39, 34, 29, 24, 19, 14]"
    unfolding q1 q2 by simp
  with split len show ?thesis by metis
qed


lemma unat_slice:
  "unat (ucast (drop_bit k X) AND 31 :: byte) = take_bit 5 (drop_bit k (unat (X :: 64 word)))"
proof -
  have "unat (ucast (drop_bit k X) AND 31 :: byte) = unat (take_bit 5 (ucast (drop_bit k X) :: byte))"
    by (simp add: take_bit_eq_mask m31)
  also have "\<dots> = take_bit 5 (take_bit 8 (drop_bit k (unat X)))"
    by (simp add: unsigned_take_bit_eq unsigned_ucast_eq unat_drop_bit_eq)
  also have "\<dots> = take_bit 5 (drop_bit k (unat X))"
    by simp
  finally show ?thesis .
qed

lemma length_slices: "length (slices n x) = n"
  by (induction n arbitrary: x) simp_all

lemma slices_10:
  "slices 10 (drop_bit 14 x) =
     map (\<lambda>k. take_bit 5 (drop_bit k x)) [59, 54, 49, 44, 39, 34, 29, 24, 19, 14]"
proof -
  have ten: "(10::nat) = Suc (Suc (Suc (Suc (Suc (Suc (Suc (Suc (Suc (Suc 0)))))))))"
    by simp
  show ?thesis
    unfolding ten
    by (simp add: take_bit_eq_mod drop_bit_eq_div div_mult2_eq [symmetric])
qed

lemma slices_less:
  assumes mono: "\<And>a b. a < b \<Longrightarrow> b < 32 \<Longrightarrow> f a < (f b :: char)"
  shows "x < y \<Longrightarrow> y < 32 ^ n \<Longrightarrow> map f (slices n x) < map f (slices n y)"
proof (induction n arbitrary: x y)
  case 0
  then show ?case by simp
next
  case (Suc n)
  have le: "x div 32 \<le> y div 32"
    using Suc.prems(1) by (simp add: div_le_mono)
  have bound: "y div 32 < 32 ^ n"
    using Suc.prems(2) by (simp add: less_mult_imp_div_less mult.commute)
  show ?case
  proof (cases "x div 32 < y div 32")
    case True
    then have "map f (slices n (x div 32)) < map f (slices n (y div 32))"
      using Suc.IH bound by blast
    then have "(map f (slices n (x div 32)), map f (slices n (y div 32)))
        \<in> lexord {(u, v). u < v}"
      by (simp add: list_less_def)
    then have "(map f (slices n (x div 32)) @ [f (x mod 32)],
                map f (slices n (y div 32)) @ [f (y mod 32)]) \<in> lexord {(u, v). u < v}"
      by (rule lexord_sufI) (simp add: length_slices)
    then show ?thesis by (simp add: list_less_def)
  next
    case False
    with le have eq: "x div 32 = y div 32" by simp
    have "x mod 32 < y mod 32"
      using Suc.prems(1) eq by (metis div_mult_mod_eq nat_add_left_cancel_less)
    then have "f (x mod 32) < f (y mod 32)"
      by (rule mono) simp
    then show ?thesis
      by (simp add: eq list_less_def lexord_append_leftI)
  qed
qed

lemma encodeStd_sorted: "sorted_wrt (<) encodeStd"
  unfolding encodeStd_def by simp

lemma encodeStd_mono: "a < b \<Longrightarrow> b < 32 \<Longrightarrow> encodeStd ! a < encodeStd ! b"
  using encodeStd_sorted by (simp add: sorted_wrt_iff_nth_less encodeStd_def)


lemma lead_top: "drop_bit 16 (lead w r) = take_bit 48 w"
  by (rule bit_word_eqI) (auto simp add: bit_simps lead_def dest: bit_imp_le_length)

lemma lead_key:
  "drop_bit 14 (unat (lead (word_of_int k) r)) div 4 = nat (take_bit 48 k)"
proof -
  have "drop_bit 14 (unat (lead (word_of_int k) r)) div 4
      = drop_bit 16 (unat (lead (word_of_int k) r))"
    by (simp add: drop_bit_eq_div div_mult2_eq [symmetric])
  also have "\<dots> = unat (take_bit 48 (word_of_int k :: 64 word))"
    by (simp add: unat_drop_bit_eq [symmetric] lead_top)
  also have "\<dots> = nat (take_bit 48 k)"
    by (simp add: unsigned_take_bit_eq unsigned_of_int take_bit_nat_eq)
  finally show ?thesis .
qed

lemma unixMilli_range: "- (2 ^ 47) < unixMilli ns \<and> unixMilli ns < 2 ^ 47"
proof -
  have "\<bar>sint ns\<bar> \<le> 2 ^ 63"
    using sint_ge [of ns] sint_lt [of ns] by simp
  then have "\<bar>sint ns\<bar> div 1000000 \<le> 2 ^ 63 div 1000000"
    by (rule zdiv_mono1) simp
  then have "\<bar>unixMilli ns\<bar> < 2 ^ 47"
    by (simp add: unixMilli_def Millisecond_def signed_divide_int_def abs_mult abs_sgn_eq)
  then show ?thesis by linarith
qed

lemma take_bit_48_milli:
  "take_bit 48 (unixMilli ns) = (if 0 \<le> unixMilli ns then unixMilli ns else unixMilli ns + 2 ^ 48)"
proof -
  have r: "- (2 ^ 47) < unixMilli ns" "unixMilli ns < 2 ^ 47"
    using unixMilli_range [of ns] by simp_all
  show ?thesis
  proof (cases "0 \<le> unixMilli ns")
    case True
    then have "unixMilli ns mod 2 ^ 48 = unixMilli ns"
      using r by (simp add: mod_pos_pos_trivial)
    with True show ?thesis by (simp add: take_bit_eq_mod)
  next
    case False
    have "(unixMilli ns + 2 ^ 48) mod 2 ^ 48 = unixMilli ns + 2 ^ 48"
      by (rule mod_pos_pos_trivial) (use r False in simp_all)
    moreover have "unixMilli ns mod 2 ^ 48 = (unixMilli ns + 2 ^ 48) mod 2 ^ 48"
      by simp
    ultimately have "unixMilli ns mod 2 ^ 48 = unixMilli ns + 2 ^ 48"
      by (rule trans [rotated])
    with False show ?thesis by (simp only: take_bit_eq_mod if_False)
  qed
qed

lemma name_less:
  assumes "nat (take_bit 48 (unixMilli ns1)) < nat (take_bit 48 (unixMilli ns2))"
  shows "newExperimentName ns1 rnd1 < newExperimentName ns2 rnd2"
proof -
  let ?ks = "[59, 54, 49, 44, 39, 34, 29, 24, 19, 14] :: nat list"
  let ?L1 = "lead (word_of_int (unixMilli ns1)) (rnd1 0)"
  let ?L2 = "lead (word_of_int (unixMilli ns2)) (rnd2 0)"
  let ?z1 = "drop_bit 14 (unat ?L1)"
  let ?z2 = "drop_bit 14 (unat ?L2)"
  obtain rest1 where n1: "newExperimentName ns1 rnd1 =
      map (\<lambda>k. encodeStd ! unat (ucast (drop_bit k ?L1) AND 31 :: byte)) ?ks @ rest1"
    using name_shape [of ns1 rnd1] by blast
  obtain rest2 where n2: "newExperimentName ns2 rnd2 =
      map (\<lambda>k. encodeStd ! unat (ucast (drop_bit k ?L2) AND 31 :: byte)) ?ks @ rest2"
    using name_shape [of ns2 rnd2] by blast
  have h1: "map (\<lambda>k. encodeStd ! unat (ucast (drop_bit k ?L1) AND 31 :: byte)) ?ks
      = map ((!) encodeStd) (slices 10 ?z1)"
    unfolding slices_10 unat_slice by simp
  have h2: "map (\<lambda>k. encodeStd ! unat (ucast (drop_bit k ?L2) AND 31 :: byte)) ?ks
      = map ((!) encodeStd) (slices 10 ?z2)"
    unfolding slices_10 unat_slice by simp
  have "?z1 div 4 < ?z2 div 4"
    using assms by (simp only: lead_key)
  then have lt: "?z1 < ?z2"
    by (meson div_le_mono not_le)
  have "unat ?L2 < 2 ^ 64"
    using unsigned_less [of ?L2] by simp
  then have bound: "?z2 < 32 ^ 10"
    by (simp add: drop_bit_eq_div less_mult_imp_div_less)
  have "map ((!) encodeStd) (slices 10 ?z1) < map ((!) encodeStd) (slices 10 ?z2)"
    using encodeStd_mono lt bound by (rule slices_less)
  then have "(map ((!) encodeStd) (slices 10 ?z1), map ((!) encodeStd) (slices 10 ?z2))
      \<in> lexord {(u, v). u < v}"
    by (simp add: list_less_def)
  then have "(map ((!) encodeStd) (slices 10 ?z1) @ rest1,
              map ((!) encodeStd) (slices 10 ?z2) @ rest2) \<in> lexord {(u, v). u < v}"
    by (rule lexord_sufI) (simp add: length_slices)
  then show ?thesis
    unfolding n1 n2 h1 h2 by (simp add: list_less_def)
qed


lemma encodeChar_in: "encodeChar encodeStd b \<in> set encodeStd"
proof -
  have "unat (b AND 31) \<le> unat (31 :: byte)"
    by (rule word_and_le1 [THEN word_le_nat_alt [THEN iffD1]])
  then have "unat (b AND 31) < length encodeStd"
    by (simp add: encodeStd_def)
  then show ?thesis
    unfolding encodeChar_def by (rule nth_mem)
qed

text \<open>
  Claim C9. Whatever the clock reads and whatever the entropy source yields, the name
  has exactly 26 characters, each one a character of the 32-letter alphabet
  \<open>0123456789ABCDEFGHJKMNPQRSTVWXYZ\<close>; in particular it holds no padding character.
\<close>

theorem newExperimentName_fixed_length_alphabet:
  "length (newExperimentName ns rnd) = 26
   \<and> set (newExperimentName ns rnd) \<subseteq> set ''0123456789ABCDEFGHJKMNPQRSTVWXYZ''
   \<and> CHR ''='' \<notin> set (newExperimentName ns rnd)"
proof -
  have len: "length (newExperimentName ns rnd) = 26"
    by (simp add: newExperimentName_def nameBytes_eq length_quantum)
  have sub: "set (newExperimentName ns rnd) \<subseteq> set encodeStd"
    by (simp add: newExperimentName_def nameBytes_eq quantum_def Let_def encodeChar_in)
  have pad: "CHR ''='' \<notin> set encodeStd"
    by (simp add: encodeStd_def)
  from len sub pad show ?thesis
    unfolding encodeStd_def by blast
qed




text \<open>
  Outside the range of the clock the order is the opposite one: a reading one
  millisecond before the epoch (\<open>-1000000\<close> nanoseconds) is less than a reading at the
  epoch, and its name is the greater one.
\<close>

lemma newExperimentName_before_epoch:
  "unixMilli (- 1000000) < unixMilli 0
   \<and> newExperimentName 0 zeroBytes < newExperimentName (- 1000000) zeroBytes"
proof -
  have a: "unixMilli (- 1000000) < unixMilli 0"
    by (simp add: unixMilli_def Millisecond_def)
  have b: "newExperimentName 0 zeroBytes < newExperimentName (- 1000000) zeroBytes"
    by (rule name_less)
       (simp add: take_bit_48_milli unixMilli_def Millisecond_def mask_eq_exp_minus_1)
  from a b show ?thesis by (rule conjI)
qed

section \<open>Properties of the trial loop\<close>

lemma experimentStopped_not_nil: "experimentStopped err \<Longrightarrow> err \<noteq> []"
  by (auto simp add: experimentStopped_def)

lemma trialLoop_Suc:
  "trialLoop (Suc n) api td exp w =
     (case NextTrial api (Link exp RelationNextTrial) w of ((ta, err), w1) \<Rightarrow>
        if experimentStopped err
        then (Returned (), [(CallNextTrial (Link exp RelationNextTrial), err)], [], w1)
        else if err \<noteq> []
        then (Goexit, [(CallNextTrial (Link exp RelationNextTrial), err)],
              [''failed to fetch trial assignments''], w1)
        else
          (case ReportTrial api (Location ta) (TrialResults td ta) w1 of (err2, w2) \<Rightarrow>
             if err2 \<noteq> []
             then (Goexit,
                   [(CallNextTrial (Link exp RelationNextTrial), []),
                    (CallReportTrial (Location ta) (TrialResults td ta), err2)],
                   (if Location ta \<noteq> [] then [] else [''missing location''])
                     @ [''failed to report trial''], w2)
             else
               (case trialLoop n api td exp w2 of (r, es, ms, w3) \<Rightarrow>
                  (r,
                   (CallNextTrial (Link exp RelationNextTrial), [])
                     # (CallReportTrial (Location ta) (TrialResults td ta), []) # es,
                   (if Location ta \<noteq> [] then [] else [''missing location'']) @ ms, w3))))"
  by (simp add: andThen_def callV_def callE_def require_def assert_def ret_def
        split: prod.splits outcome.splits)


declare trialLoop.simps(2) [simp del]

lemma trialLoop_shape:
  "trialLoop n api td exp w = (r, evs, ms, w') \<Longrightarrow>
     (\<forall>e \<in> set (butlast evs). snd e = [])
     \<and> (r = Returned () \<longrightarrow> evs \<noteq> [] \<and> stopSignal (last evs))
     \<and> (r = Goexit \<longrightarrow> evs \<noteq> [] \<and> snd (last evs) \<noteq> [] \<and> \<not> stopSignal (last evs)
            \<and> ms \<noteq> []
            \<and> last ms \<in> {''failed to fetch trial assignments'', ''failed to report trial''})
     \<and> (r = Running \<longrightarrow> (\<forall>e \<in> set evs. snd e = []))"
proof (induction n arbitrary: w r evs ms w')
  case 0
  then show ?case by auto
next
  case (Suc n)
  obtain ta err w1 where nt: "NextTrial api (Link exp RelationNextTrial) w = ((ta, err), w1)"
    by (metis prod.exhaust)
  show ?case
  proof (cases "experimentStopped err")
    case True
    with Suc.prems nt show ?thesis
      by (auto simp add: trialLoop_Suc stopSignal_def dest: experimentStopped_not_nil)
  next
    case notStopped: False
    show ?thesis
    proof (cases "err = []")
      case False
      with Suc.prems nt notStopped show ?thesis
        by (auto simp add: trialLoop_Suc stopSignal_def)
    next
      case errNil: True
      obtain err2 w2 where rt:
        "ReportTrial api (Location ta) (TrialResults td ta) w1 = (err2, w2)"
        by (metis prod.exhaust)
      show ?thesis
      proof (cases "err2 = []")
        case False
        with Suc.prems nt notStopped errNil rt show ?thesis
          by (auto simp add: trialLoop_Suc stopSignal_def)
      next
        case True
        obtain r3 es3 ms3 w3 where rec: "trialLoop n api td exp w2 = (r3, es3, ms3, w3)"
          by (metis prod.exhaust)
        note ih = Suc.IH [OF rec]
        from Suc.prems nt notStopped errNil rt True rec
        have r: "r = r3"
          and evs: "evs = (CallNextTrial (Link exp RelationNextTrial), [])
                     # (CallReportTrial (Location ta) (TrialResults td ta), []) # es3"
          and ms: "ms = (if Location ta \<noteq> [] then [] else [''missing location'']) @ ms3"
          by (simp_all add: trialLoop_Suc)
        show ?thesis
          unfolding r evs ms using ih by (cases es3) (auto split: if_splits)
      qed
    qed
  qed
qed

lemma trialLoop_ends:
  "trialLoop n api td exp w = (r, evs, ms, w') \<Longrightarrow> r \<noteq> Panic \<and> r \<noteq> Blocked"
proof (induction n arbitrary: w r evs ms w')
  case 0
  then show ?case by auto
next
  case (Suc n)
  obtain ta err w1 where nt: "NextTrial api (Link exp RelationNextTrial) w = ((ta, err), w1)"
    by (metis prod.exhaust)
  obtain err2 w2 where rt:
    "ReportTrial api (Location ta) (TrialResults td ta) w1 = (err2, w2)"
    by (metis prod.exhaust)
  obtain r3 es3 ms3 w3 where rec: "trialLoop n api td exp w2 = (r3, es3, ms3, w3)"
    by (metis prod.exhaust)
  show ?case
  proof (cases "experimentStopped err \<or> err \<noteq> [] \<or> err2 \<noteq> []")
    case True
    with Suc.prems nt rt show ?thesis
      by (auto simp add: trialLoop_Suc split: if_splits)
  next
    case False
    with Suc.prems nt rt rec have "r = r3"
      by (simp add: trialLoop_Suc)
    with Suc.IH [OF rec] show ?thesis
      by simp
  qed
qed

lemma trialLoop_more_fuel:
  "trialLoop n api td exp w = (r, evs, ms, w') \<Longrightarrow> r \<noteq> Running \<Longrightarrow>
     trialLoop (n + k) api td exp w = (r, evs, ms, w')"
proof (induction n arbitrary: w r evs ms w')
  case 0
  then show ?case by simp
next
  case (Suc n)
  obtain ta err w1 where nt: "NextTrial api (Link exp RelationNextTrial) w = ((ta, err), w1)"
    by (metis prod.exhaust)
  obtain err2 w2 where rt:
    "ReportTrial api (Location ta) (TrialResults td ta) w1 = (err2, w2)"
    by (metis prod.exhaust)
  obtain r3 es3 ms3 w3 where rec: "trialLoop n api td exp w2 = (r3, es3, ms3, w3)"
    by (metis prod.exhaust)
  show ?case
  proof (cases "experimentStopped err \<or> err \<noteq> [] \<or> err2 \<noteq> []")
    case True
    with Suc.prems nt rt show ?thesis
      by (auto simp add: trialLoop_Suc split: if_splits)
  next
    case False
    with Suc.prems nt rt rec have "r = r3"
      by (simp add: trialLoop_Suc)
    with Suc.prems(2) have "trialLoop (n + k) api td exp w2 = (r3, es3, ms3, w3)"
      using Suc.IH [OF rec] by simp
    with Suc.prems nt rt rec False show ?thesis
      by (simp add: trialLoop_Suc)
  qed
qed


lemma trialLoop_messages:
  "trialLoop n api td exp w = (r, evs, ms, w') \<Longrightarrow>
     (r = Returned () \<longrightarrow> (\<forall>m \<in> set ms. m = ''missing location''))
     \<and> (r = Running \<longrightarrow> length evs = 2 * n)"
proof (induction n arbitrary: w r evs ms w')
  case 0
  then show ?case by auto
next
  case (Suc n)
  obtain ta err w1 where nt: "NextTrial api (Link exp RelationNextTrial) w = ((ta, err), w1)"
    by (metis prod.exhaust)
  obtain err2 w2 where rt:
    "ReportTrial api (Location ta) (TrialResults td ta) w1 = (err2, w2)"
    by (metis prod.exhaust)
  obtain r3 es3 ms3 w3 where rec: "trialLoop n api td exp w2 = (r3, es3, ms3, w3)"
    by (metis prod.exhaust)
  show ?case
  proof (cases "experimentStopped err \<or> err \<noteq> [] \<or> err2 \<noteq> []")
    case True
    with Suc.prems nt rt show ?thesis
      by (auto simp add: trialLoop_Suc split: if_splits)
  next
    case False
    with Suc.prems nt rt rec have "r = r3"
      and "evs = (CallNextTrial (Link exp RelationNextTrial), [])
                 # (CallReportTrial (Location ta) (TrialResults td ta), []) # es3"
      and "ms = (if Location ta \<noteq> [] then [] else [''missing location'']) @ ms3"
      by (simp_all add: trialLoop_Suc)
    with Suc.IH [OF rec] show ?thesis
      by (auto split: if_splits)
  qed
qed

text \<open>
  Claim C1. Whatever the service answers and however many iterations are granted, the
  loop returns exactly when the last call it made is a \<^verbatim>\<open>NextTrial\<close> whose error chain
  holds an \<^verbatim>\<open>*api.Error\<close> of type \<^verbatim>\<open>ExperimentStopped\<close>; it leaves through \<^verbatim>\<open>FailNow\<close>
  exactly when its last call returned any other error, and then the failure is logged;
  every call before the last returned no error, so the first error of either kind ends
  the loop at once, on the first iteration as on any later one. A loop that returns has
  logged no failure of a call (only an empty trial location, which \<^verbatim>\<open>assert\<close> logs
  without ending the loop). The loop is still running after the granted iterations only
  when each of them made its two calls without error, and a loop that has ended within
  the granted iterations ends the same way when granted more.
\<close>

theorem trialLoop_exits_on_stop_signal:
  assumes "trialLoop fuel api td exp w = (r, evs, ms, w')"
  shows "(r = Returned () \<longleftrightarrow> evs \<noteq> [] \<and> stopSignal (last evs))
       \<and> (r = Goexit \<longleftrightarrow> evs \<noteq> [] \<and> snd (last evs) \<noteq> [] \<and> \<not> stopSignal (last evs))
       \<and> (\<forall>e \<in> set (butlast evs). snd e = [])
       \<and> (r = Goexit \<longrightarrow> ms \<noteq> []
            \<and> last ms \<in> {''failed to fetch trial assignments'', ''failed to report trial''})
       \<and> (r = Returned () \<longrightarrow> (\<forall>m \<in> set ms. m = ''missing location''))
       \<and> (r = Running \<longrightarrow> length evs = 2 * fuel \<and> (\<forall>e \<in> set evs. snd e = []))
       \<and> (r \<noteq> Running \<longrightarrow> (\<forall>k. trialLoop (fuel + k) api td exp w = (r, evs, ms, w')))"
proof -
  note shape = trialLoop_shape [OF assms]
  note msgs = trialLoop_messages [OF assms]
  note ends = trialLoop_ends [OF assms]
  have stop_err: "stopSignal (last evs) \<Longrightarrow> snd (last evs) \<noteq> []"
    by (simp add: stopSignal_def experimentStopped_not_nil)
  have a: "r = Returned () \<longleftrightarrow> evs \<noteq> [] \<and> stopSignal (last evs)"
  proof (cases r)
    case (Returned u)
    with shape show ?thesis by simp
  next
    case Goexit
    with shape show ?thesis by simp
  next
    case Running
    with shape stop_err show ?thesis by auto
  next
    case Panic
    with ends show ?thesis by simp
  next
    case Blocked
    with ends show ?thesis by simp
  qed
  have b: "r = Goexit \<longleftrightarrow> evs \<noteq> [] \<and> snd (last evs) \<noteq> [] \<and> \<not> stopSignal (last evs)"
  proof (cases r)
    case (Returned u)
    with shape show ?thesis by simp
  next
    case Goexit
    with shape show ?thesis by simp
  next
    case Running
    with shape show ?thesis by auto
  next
    case Panic
    with ends show ?thesis by simp
  next
    case Blocked
    with ends show ?thesis by simp
  qed
  have c: "r \<noteq> Running \<longrightarrow> (\<forall>k. trialLoop (fuel + k) api td exp w = (r, evs, ms, w'))"
    using trialLoop_more_fuel [OF assms] by blast
  from shape have d: "\<forall>e \<in> set (butlast evs). snd e = []"
    and e: "r = Goexit \<longrightarrow> ms \<noteq> []
            \<and> last ms \<in> {''failed to fetch trial assignments'', ''failed to report trial''}"
    and f: "r = Running \<longrightarrow> (\<forall>e \<in> set evs. snd e = [])"
    by simp_all
  from msgs have g: "r = Returned () \<longrightarrow> (\<forall>m \<in> set ms. m = ''missing location'')"
    and h: "r = Running \<longrightarrow> length evs = 2 * fuel"
    by simp_all
  from a b c d e f g h show ?thesis by simp
qed

theorem trialLoop_exits_on_stop_signal_witness:
  "trialLoop 2 (demoAPI 1) demoTd demoExperiment 0 =
     (Returned (),
      [(CallNextTrial ''/exp/next'', []),
       (CallReportTrial ''/exp/trials/1'' ''values'', []),
       (CallNextTrial ''/exp/next'', [ApiError ErrExperimentStopped])], [], 1)
   \<and> stopSignal (CallNextTrial ''/exp/next'', [ApiError ErrExperimentStopped])
   \<and> trialLoop 1 (demoAPI 0) demoTd demoExperiment 0 =
     (Returned (), [(CallNextTrial ''/exp/next'', [ApiError ErrExperimentStopped])], [], 0)
   \<and> trialLoop 7 (demoAPI 0) demoTd demoExperiment 0 =
     (Returned (), [(CallNextTrial ''/exp/next'', [ApiError ErrExperimentStopped])], [], 0)"
proof -
  have two: "(2::nat) = Suc (Suc 0)" by simp
  have run1: "trialLoop 2 (demoAPI 1) demoTd demoExperiment 0 =
     (Returned (),
      [(CallNextTrial ''/exp/next'', []),
       (CallReportTrial ''/exp/trials/1'' ''values'', []),
       (CallNextTrial ''/exp/next'', [ApiError ErrExperimentStopped])], [], 1)"
    unfolding two
    by (simp add: trialLoop_Suc demoAPI_def demoTd_def demoExperiment_def demoTrial_def
          Link_def experimentStopped_def)
  have run0: "trialLoop 1 (demoAPI 0) demoTd demoExperiment 0 =
     (Returned (), [(CallNextTrial ''/exp/next'', [ApiError ErrExperimentStopped])], [], 0)"
    by (simp add: trialLoop_Suc demoAPI_def demoTd_def demoExperiment_def
          Link_def experimentStopped_def)
  from trialLoop_exits_on_stop_signal [OF run1]
  have sig: "stopSignal (CallNextTrial ''/exp/next'', [ApiError ErrExperimentStopped])"
    by simp
  from trialLoop_exits_on_stop_signal [OF run0]
  have "\<forall>k. trialLoop (1 + k) (demoAPI 0) demoTd demoExperiment 0 =
     (Returned (), [(CallNextTrial ''/exp/next'', [ApiError ErrExperimentStopped])], [], 0)"
    by simp
  then have "trialLoop (1 + 6) (demoAPI 0) demoTd demoExperiment 0 =
     (Returned (), [(CallNextTrial ''/exp/next'', [ApiError ErrExperimentStopped])], [], 0)"
    by (rule spec)
  then have more: "trialLoop 7 (demoAPI 0) demoTd demoExperiment 0 =
     (Returned (), [(CallNextTrial ''/exp/next'', [ApiError ErrExperimentStopped])], [], 0)"
    by simp
  from run1 run0 sig more show ?thesis by blast
qed

section \<open>Properties of the Run subtest\<close>

lemma trialLoop_calls:
  "trialLoop n api td exp w = (r, evs, ms, w') \<Longrightarrow>
     \<forall>e \<in> set evs. isTrialCall (fst e) \<and> \<not> isCreateTrial (fst e)"
proof (induction n arbitrary: w r evs ms w')
  case 0
  then show ?case by auto
next
  case (Suc n)
  obtain ta err w1 where nt: "NextTrial api (Link exp RelationNextTrial) w = ((ta, err), w1)"
    by (metis prod.exhaust)
  obtain err2 w2 where rt:
    "ReportTrial api (Location ta) (TrialResults td ta) w1 = (err2, w2)"
    by (metis prod.exhaust)
  obtain r3 es3 ms3 w3 where rec: "trialLoop n api td exp w2 = (r3, es3, ms3, w3)"
    by (metis prod.exhaust)
  from Suc.prems nt rt rec Suc.IH [OF rec] show ?case
    by (fastforce simp add: trialLoop_Suc split: if_splits)
qed

lemma runBody_trace:
  assumes "runBody fuel api td scn app w = (r, evs, ms, w')"
  shows "(r = Goexit \<and> (\<forall>x \<in> set evs. \<not> isTrialCall (fst x)))
       \<or> (\<exists>pre u e. evs = pre @ [(CallCreateTrial u (baselineTrial td), e)]
             \<and> (\<forall>x \<in> set pre. \<not> isTrialCall (fst x))
             \<and> e \<noteq> [] \<and> r = Goexit \<and> ms \<noteq> []
             \<and> last ms = ''failed to create baseline trial'')
       \<or> (\<exists>pre u exp w2 es ms2. evs = pre @ (CallCreateTrial u (baselineTrial td), []) # es
             \<and> (\<forall>x \<in> set pre. \<not> isTrialCall (fst x))
             \<and> trialLoop fuel api td exp w2 = (r, es, ms2, w'))"
proof -
  obtain err1 w1 where gt: "GetTemplate api (Link scn RelationTemplate) w = (err1, w1)"
    by (metis prod.exhaust)
  let ?name = "newExperimentName (UnixNano api w1) (RandBytes api w1)"
  obtain exp err3 w3 where ce:
    "CreateExperimentByName api (Link scn RelationExperiments) ?name (ExperimentDef td) w1
       = ((exp, err3), w3)"
    by (metis prod.exhaust)
  obtain err4 w4 where ct:
    "CreateTrial api (Link exp RelationTrials) (baselineTrial td) w3 = (err4, w4)"
    by (metis prod.exhaust)
  obtain r5 es5 ms5 w5 where tl: "trialLoop fuel api td exp w4 = (r5, es5, ms5, w5)"
    by (metis prod.exhaust)
  consider (a) "err1 \<noteq> []"
    | (b) "err1 = []" "NewAPIWithEndpoint api (Link scn RelationExperiments) \<noteq> []"
    | (c) "err1 = []" "NewAPIWithEndpoint api (Link scn RelationExperiments) = []" "err3 \<noteq> []"
    | (d) "err1 = []" "NewAPIWithEndpoint api (Link scn RelationExperiments) = []" "err3 = []"
          "err4 \<noteq> []"
    | (e) "err1 = []" "NewAPIWithEndpoint api (Link scn RelationExperiments) = []" "err3 = []"
          "err4 = []"
    by blast
  then show ?thesis
  proof cases
    case a
    with assms gt show ?thesis
      by (auto simp add: runBody_def andThen_def callE_def require_def)
  next
    case b
    with assms gt show ?thesis
      by (auto simp add: runBody_def andThen_def callE_def require_def ret_def)
  next
    case c
    with assms gt ce show ?thesis
      by (auto simp add: runBody_def andThen_def callE_def callV_def require_def ret_def
            newName_def)
  next
    case d
    let ?pre = "[(CallGetTemplate (Link scn RelationTemplate), []),
              (CallCreateExperimentByName (Link scn RelationExperiments) ?name
                 (ExperimentDef td), [])]"
    from d assms gt ce ct have
      1: "evs = ?pre @ [(CallCreateTrial (Link exp RelationTrials) (baselineTrial td), err4)]"
      and 2: "r = Goexit" and 3: "ms \<noteq> []"
      and 4: "last ms = ''failed to create baseline trial''"
      by (auto simp add: runBody_def andThen_def callE_def callV_def require_def ret_def
            newName_def assert_def)
    have 5: "\<forall>x \<in> set ?pre. \<not> isTrialCall (fst x)" by simp
    have "\<exists>pre u e. evs = pre @ [(CallCreateTrial u (baselineTrial td), e)]
             \<and> (\<forall>x \<in> set pre. \<not> isTrialCall (fst x))
             \<and> e \<noteq> [] \<and> r = Goexit \<and> ms \<noteq> []
             \<and> last ms = ''failed to create baseline trial''"
      apply (rule exI [where x = "?pre"])
      apply (rule exI [where x = "Link exp RelationTrials"])
      apply (rule exI [where x = err4])
      using 1 2 3 4 5 d(4) apply simp
      done
    then show ?thesis by (rule disjI2 [OF disjI1])
  next
    case e
    let ?pre = "[(CallGetTemplate (Link scn RelationTemplate), []),
              (CallCreateExperimentByName (Link scn RelationExperiments) ?name
                 (ExperimentDef td), [])]"
    from e assms gt ce ct tl have
      1: "evs = ?pre @ (CallCreateTrial (Link exp RelationTrials) (baselineTrial td), []) # es5"
      and "r = r5" and "w' = w5"
      by (auto simp add: runBody_def andThen_def callE_def callV_def require_def ret_def
            newName_def assert_def)
    with tl have 3: "trialLoop fuel api td exp w4 = (r, es5, ms5, w')" by simp
    have 2: "\<forall>x \<in> set ?pre. \<not> isTrialCall (fst x)" by simp
    have "\<exists>pre u exp w2 es ms2. evs = pre @ (CallCreateTrial u (baselineTrial td), []) # es
             \<and> (\<forall>x \<in> set pre. \<not> isTrialCall (fst x))
             \<and> trialLoop fuel api td exp w2 = (r, es, ms2, w')"
      apply (rule exI [where x = "?pre"])
      apply (rule exI [where x = "Link exp RelationTrials"])
      apply (rule exI [where x = exp])
      apply (rule exI [where x = w4])
      apply (rule exI [where x = es5])
      apply (rule exI [where x = ms5])
      using 1 2 3 apply simp
      done
    then show ?thesis by (rule disjI2 [OF disjI2])
  qed
qed


lemma filter_none: "\<forall>x \<in> set xs. \<not> P x \<Longrightarrow> filter P xs = []"
  by (induction xs) auto

lemma filter_all: "\<forall>x \<in> set xs. P x \<Longrightarrow> filter P xs = xs"
  by (induction xs) auto

text \<open>
  Claim C6. Among the trial calls of a Run subtest (\<^verbatim>\<open>CreateTrial\<close>, \<^verbatim>\<open>NextTrial\<close>,
  \<^verbatim>\<open>ReportTrial\<close>), the first is the creation of the baseline trial, with the label
  \<open>baseline = true\<close> and the assignments of the test definition; no other trial is
  created by the subtest; and when that creation fails, the subtest makes no further
  trial call, leaves through \<^verbatim>\<open>FailNow\<close> and logs the failure.
\<close>

theorem runBody_baseline_first:
  assumes "runBody fuel api td scn app w = (r, evs, ms, w')"
  shows "case filter (\<lambda>e. isTrialCall (fst e)) evs of
           [] \<Rightarrow> True
         | first # rest \<Rightarrow>
             (\<exists>u. fst first = CallCreateTrial u
                     \<lparr>Location = [], Title = [], Links = [],
                      Labels = [(''baseline'', ''true'')], Assignments = Baseline td\<rparr>)
             \<and> (\<forall>x \<in> set rest. \<not> isCreateTrial (fst x))
             \<and> (snd first \<noteq> [] \<longrightarrow>
                   rest = [] \<and> r = Goexit \<and> ms \<noteq> []
                   \<and> last ms = ''failed to create baseline trial'')"
proof -
  let ?P = "\<lambda>e :: event. isTrialCall (fst e)"
  from runBody_trace [OF assms]
  consider (early) "r = Goexit" "\<forall>x \<in> set evs. \<not> ?P x"
    | (failed) pre u e where "evs = pre @ [(CallCreateTrial u (baselineTrial td), e)]"
        "\<forall>x \<in> set pre. \<not> ?P x" "e \<noteq> []" "r = Goexit" "ms \<noteq> []"
        "last ms = ''failed to create baseline trial''"
    | (created) pre u exp w2 es ms2 where
        "evs = pre @ (CallCreateTrial u (baselineTrial td), []) # es"
        "\<forall>x \<in> set pre. \<not> ?P x" "trialLoop fuel api td exp w2 = (r, es, ms2, w')"
    by auto
  then show ?thesis
  proof cases
    case early
    then have "filter ?P evs = []" by (simp add: filter_none)
    then show ?thesis by simp
  next
    case failed
    then have "filter ?P evs = [(CallCreateTrial u (baselineTrial td), e)]"
      by (simp add: filter_none)
    with failed show ?thesis by (simp add: baselineTrial_def)
  next
    case created
    from trialLoop_calls [OF created(3)]
    have all: "\<forall>x \<in> set es. ?P x" and none: "\<forall>x \<in> set es. \<not> isCreateTrial (fst x)"
      by simp_all
    from created all have "filter ?P evs = (CallCreateTrial u (baselineTrial td), []) # es"
      by (simp add: filter_none filter_all)
    with none show ?thesis by (simp add: baselineTrial_def)
  qed
qed

theorem runBody_baseline_first_witness:
  "runBody 1 (demoAPI 0) demoTd demoScenario demoApplication 0 =
     (Returned (),
      [(CallGetTemplate ''/scn/template'', []),
       (CallCreateExperimentByName ''/scn/experiments''
          (newExperimentName 1700000000000000000 zeroBytes) ''exp'', []),
       (CallCreateTrial ''/exp/trials''
          \<lparr>Location = [], Title = [], Links = [],
           Labels = [(''baseline'', ''true'')], Assignments = [(''cpu'', ''1'')]\<rparr>, []),
       (CallNextTrial ''/exp/next'', [ApiError ErrExperimentStopped])], [], 0)
   \<and> runBody 1 ((demoAPI 0)\<lparr>CreateTrial := \<lambda>u ta w. (unavailable, w)\<rparr>)
         demoTd demoScenario demoApplication 0 =
     (Goexit,
      [(CallGetTemplate ''/scn/template'', []),
       (CallCreateExperimentByName ''/scn/experiments''
          (newExperimentName 1700000000000000000 zeroBytes) ''exp'', []),
       (CallCreateTrial ''/exp/trials''
          \<lparr>Location = [], Title = [], Links = [],
           Labels = [(''baseline'', ''true'')], Assignments = [(''cpu'', ''1'')]\<rparr>,
        unavailable)],
      [''failed to create baseline trial''], 0)
   \<and> Baseline demoTd = [(''cpu'', ''1'')]"
proof -
  have ok: "runBody 1 (demoAPI 0) demoTd demoScenario demoApplication 0 =
     (Returned (),
      [(CallGetTemplate ''/scn/template'', []),
       (CallCreateExperimentByName ''/scn/experiments''
          (newExperimentName 1700000000000000000 zeroBytes) ''exp'', []),
       (CallCreateTrial ''/exp/trials''
          \<lparr>Location = [], Title = [], Links = [],
           Labels = [(''baseline'', ''true'')], Assignments = [(''cpu'', ''1'')]\<rparr>, []),
       (CallNextTrial ''/exp/next'', [ApiError ErrExperimentStopped])], [], 0)"
    by (simp add: runBody_def andThen_def callE_def callV_def require_def ret_def
          newName_def assert_def trialLoop_Suc demoAPI_def demoTd_def demoScenario_def
          demoApplication_def demoExperiment_def baselineTrial_def Link_def label_def
          experimentStopped_def)
  have bad: "runBody 1 ((demoAPI 0)\<lparr>CreateTrial := \<lambda>u ta w. (unavailable, w)\<rparr>)
         demoTd demoScenario demoApplication 0 =
     (Goexit,
      [(CallGetTemplate ''/scn/template'', []),
       (CallCreateExperimentByName ''/scn/experiments''
          (newExperimentName 1700000000000000000 zeroBytes) ''exp'', []),
       (CallCreateTrial ''/exp/trials''
          \<lparr>Location = [], Title = [], Links = [],
           Labels = [(''baseline'', ''true'')], Assignments = [(''cpu'', ''1'')]\<rparr>,
        unavailable)],
      [''failed to create baseline trial''], 0)"
    by (simp add: runBody_def andThen_def callE_def callV_def require_def ret_def
          newName_def assert_def demoAPI_def demoTd_def demoScenario_def
          demoApplication_def demoExperiment_def baselineTrial_def Link_def label_def
          unavailable_def)
  from runBody_baseline_first [OF ok] runBody_baseline_first [OF bad]
  have "Baseline demoTd = [(''cpu'', ''1'')]"
    by (simp add: unavailable_def)
  with ok bad show ?thesis by simp
qed

section \<open>Properties of the consumer loop\<close>

lemma emitsD: "emits Q m \<Longrightarrow> m w = (r, es, ms, w') \<Longrightarrow> \<forall>e \<in> set es. Q e"
  by (auto simp add: emits_def list_all_iff dest: spec [where x = w])

lemma emits_ret: "emits Q (ret a)"
  by (simp add: emits_def ret_def)

lemma emits_require: "emits Q (require b msg)"
  by (simp add: emits_def require_def)

lemma emits_assert: "emits Q (assert b msg)"
  by (simp add: emits_def assert_def)

lemma emits_skip: "emits Q skip"
  by (simp add: emits_def skip_def)

lemma emits_newName: "emits Q (newName api)"
  by (simp add: emits_def newName_def)

lemma emits_callE: "(\<And>err. Q (c, err)) \<Longrightarrow> emits Q (callE c f)"
  by (simp add: emits_def callE_def split: prod.splits)

lemma emits_callV: "(\<And>err. Q (c, err)) \<Longrightarrow> emits Q (callV c f)"
  by (simp add: emits_def callV_def split: prod.splits)

lemma emits_event: "Q (c, []) \<Longrightarrow> emits Q (event c)"
  by (simp add: emits_def event_def)

lemma emits_run_Add: "Q (RunAdd, []) \<Longrightarrow> emits Q run_Add"
  by (simp add: emits_def run_Add_def)

lemma emits_run_Done: "Q (RunDone, []) \<Longrightarrow> emits Q run_Done"
  by (simp add: emits_def run_Done_def)

lemma emits_run_Wait: "Q (RunWait, []) \<Longrightarrow> emits Q run_Wait"
  by (simp add: emits_def run_Wait_def)

lemma emits_andThen: "emits Q m \<Longrightarrow> (\<And>a. emits Q (f a)) \<Longrightarrow> emits Q (andThen m f)"
  unfolding emits_def andThen_def
  by (auto split: prod.splits outcome.splits)
     (metis fst_conv snd_conv list_all_append)+

lemma emits_t_Run: "emits Q m \<Longrightarrow> emits Q (t_Run m)"
  unfolding emits_def t_Run_def
  by (auto split: prod.splits outcome.splits) (metis fst_conv snd_conv)+

lemma emits_onWorld: "emits Q m \<Longrightarrow> emits Q (onWorld m)"
  unfolding emits_def onWorld_def
  by (auto split: prod.splits) (metis fst_conv snd_conv)

lemma emits_deferring: "emits Q m \<Longrightarrow> emits Q d \<Longrightarrow> emits Q (deferring d m)"
  unfolding emits_def deferring_def
  by (auto split: prod.splits outcome.splits) (metis fst_conv snd_conv)+

lemma emits_if: "emits Q m \<Longrightarrow> emits Q n \<Longrightarrow> emits Q (if b then m else n)"
  by simp

lemma emits_case_prod: "(\<And>a b. emits Q (f a b)) \<Longrightarrow> emits Q (case p of (a, b) \<Rightarrow> f a b)"
  by (cases p) simp

lemmas emits_intros =
  emits_ret emits_require emits_assert emits_skip emits_newName emits_callE emits_callV
  emits_event emits_run_Add emits_run_Done emits_run_Wait emits_andThen emits_t_Run
  emits_onWorld emits_deferring emits_if emits_case_prod


lemma emits_trialLoop:
  "(\<And>u err. Q (CallNextTrial u, err)) \<Longrightarrow> (\<And>u v err. Q (CallReportTrial u v, err)) \<Longrightarrow>
     emits Q (trialLoop n api td exp)"
proof (induction n)
  case 0
  then show ?case by (simp add: emits_def)
next
  case (Suc n)
  show ?case
    unfolding trialLoop.simps
    by (intro emits_intros Suc.prems Suc.IH [OF Suc.prems])
qed

lemma emits_runSubtest:
  "emits (\<lambda>e. \<not> isDeleteActivity (fst e)) (runSubtest fuel api td scn app)"
  unfolding runSubtest_def runBody_def
  by (intro emits_intros emits_trialLoop) simp_all

lemma emits_scanSubtest:
  "emits (\<lambda>e. \<not> isDeleteActivity (fst e)) (scanSubtest api td scn)"
  unfolding scanSubtest_def
  by (intro emits_intros) simp_all

lemma emits_dispatch:
  "emits (\<lambda>e. \<not> isDeleteActivity (fst e)) (dispatch fuel api td ai scn app)"
  unfolding dispatch_def
  by (intro emits_intros emits_runSubtest emits_scanSubtest)

lemma emits_lookupItem:
  "emits (\<lambda>e. \<not> isDeleteActivity (fst e)) (lookupItem api ai)"
  unfolding lookupItem_def
  by (intro emits_intros) simp_all

text \<open>How the parts of the test can end.\<close>

lemma finishes_ret: "finishes (ret a)"
  by (simp add: finishes_def ret_def)

lemma finishes_require: "finishes (require b msg)"
  by (simp add: finishes_def require_def)

lemma finishes_assert: "finishes (assert b msg)"
  by (simp add: finishes_def assert_def)

lemma finishes_skip: "finishes skip"
  by (simp add: finishes_def skip_def)

lemma finishes_callE: "finishes (callE c f)"
  by (simp add: finishes_def callE_def split: prod.splits)

lemma finishes_callV: "finishes (callV c f)"
  by (simp add: finishes_def callV_def split: prod.splits)

lemma finishes_andThen: "finishes m \<Longrightarrow> (\<And>a. finishes (f a)) \<Longrightarrow> finishes (andThen m f)"
  unfolding finishes_def andThen_def
  by (auto split: prod.splits outcome.splits) (metis fst_conv)+

lemma finishes_if: "finishes m \<Longrightarrow> finishes n \<Longrightarrow> finishes (if b then m else n)"
  by simp

lemma finishes_case_prod:
  "(\<And>a b. finishes (f a b)) \<Longrightarrow> finishes (case p of (a, b) \<Rightarrow> f a b)"
  by (cases p) simp

lemmas finishes_intros =
  finishes_ret finishes_require finishes_assert finishes_skip finishes_callE finishes_callV
  finishes_andThen finishes_if finishes_case_prod

lemma finishesD:
  "finishes m \<Longrightarrow> m w = (r, es, ms, w') \<Longrightarrow> r \<noteq> Running \<and> r \<noteq> Panic \<and> r \<noteq> Blocked"
  by (auto simp add: finishes_def dest: spec [where x = w])

lemma finishes_lookupItem: "finishes (lookupItem api ai)"
  unfolding lookupItem_def by (intro finishes_intros)

lemma finishes_scanSubtest: "finishes (scanSubtest api td scn)"
  unfolding scanSubtest_def by (intro finishes_intros)

lemma finishes_acknowledge: "finishes (acknowledge api ai)"
  unfolding acknowledge_def by (intro finishes_intros)

lemma finishes_deleteApplicationSubtest: "finishes (deleteApplicationSubtest api appMeta)"
  unfolding deleteApplicationSubtest_def by (intro finishes_intros)

lemma safe_finishes: "finishes m \<Longrightarrow> safe m"
  by (simp add: finishes_def safe_def)

lemma safe_newName: "safe (newName api)"
  by (simp add: safe_def newName_def)

lemma safe_andThen: "safe m \<Longrightarrow> (\<And>a. safe (f a)) \<Longrightarrow> safe (andThen m f)"
  unfolding safe_def andThen_def
  by (auto split: prod.splits outcome.splits) (metis fst_conv)+

lemma safe_case_prod: "(\<And>a b. safe (f a b)) \<Longrightarrow> safe (case p of (a, b) \<Rightarrow> f a b)"
  by (cases p) simp

lemma safe_trialLoop: "safe (trialLoop n api td exp)"
  unfolding safe_def
proof
  fix w
  obtain r evs ms w' where "trialLoop n api td exp w = (r, evs, ms, w')"
    by (metis prod.exhaust)
  then show "fst (trialLoop n api td exp w) \<noteq> Panic \<and> fst (trialLoop n api td exp w) \<noteq> Blocked"
    using trialLoop_ends by fastforce
qed

lemmas safe_intros =
  safe_andThen safe_case_prod safe_newName safe_trialLoop
  finishes_ret [THEN safe_finishes] finishes_require [THEN safe_finishes]
  finishes_assert [THEN safe_finishes] finishes_callE [THEN safe_finishes]
  finishes_callV [THEN safe_finishes]

lemma safe_runBody: "safe (runBody fuel api td scn app)"
  unfolding runBody_def by (intro safe_intros)

lemma safeD: "safe m \<Longrightarrow> m w = (r, es, ms, w') \<Longrightarrow> r \<noteq> Panic \<and> r \<noteq> Blocked"
  by (auto simp add: safe_def dest: spec [where x = w])

text \<open>
  The Run subtest: while its loop is running nothing is deferred yet; once its body has
  ended, by return or by \<^verbatim>\<open>FailNow\<close>, the deferred \<^verbatim>\<open>run.Done()\<close> is its last event, and
  it panics when the counter was not positive.
\<close>

lemma runSubtest_cases:
  assumes "runSubtest fuel api td scn app s = (r, evs, ms, s')"
  obtains
    (stillRunning) w1 where
      "runBody fuel api td scn app (world s) = (Running, evs, ms, w1)"
      "r = Running" "s' = s\<lparr>world := w1\<rparr>"
  | (ended) r1 es w1 where
      "runBody fuel api td scn app (world s) = (r1, es, ms, w1)"
      "r1 = Returned () \<or> r1 = Goexit"
      "evs = es @ [(RunDone, [])]"
      "s' = s\<lparr>world := w1, run := run s - 1\<rparr>"
      "r = (if run s - 1 < 0 then Panic else r1)"
proof -
  obtain r1 es ms1 w1 where body: "runBody fuel api td scn app (world s) = (r1, es, ms1, w1)"
    by (metis prod.exhaust)
  note sf = safeD [OF safe_runBody body]
  show thesis
  proof (cases r1)
    case Running
    with assms body show thesis
      by (intro stillRunning [of w1]) (simp_all add: runSubtest_def deferring_def onWorld_def)
  next
    case (Returned u)
    with assms body show thesis
      by (intro ended [of r1 es w1])
         (auto simp add: runSubtest_def deferring_def onWorld_def run_Done_def split: if_splits)
  next
    case Goexit
    with assms body show thesis
      by (intro ended [of r1 es w1])
         (auto simp add: runSubtest_def deferring_def onWorld_def run_Done_def split: if_splits)
  next
    case Panic
    with sf show thesis by simp
  next
    case Blocked
    with sf show thesis by simp
  qed
qed

lemma emits_runBody_no_group:
  "emits (\<lambda>e. \<not> isGroupCall (fst e)) (runBody fuel api td scn app)"
  unfolding runBody_def
  by (intro emits_intros emits_trialLoop) simp_all

lemma emits_scanSubtest_plain:
  "emits (\<lambda>e. \<not> isGroupCall (fst e) \<and> \<not> isRunCall (fst e)) (scanSubtest api td scn)"
  unfolding scanSubtest_def
  by (intro emits_intros) simp_all

lemma emits_lookupItem_plain:
  "emits (\<lambda>e. \<not> isGroupCall (fst e) \<and> \<not> isRunCall (fst e)) (lookupItem api ai)"
  unfolding lookupItem_def
  by (intro emits_intros) simp_all

lemma emits_acknowledge_plain:
  "emits (\<lambda>e. \<not> isGroupCall (fst e) \<and> \<not> isRunCall (fst e)) (acknowledge api ai)"
  unfolding acknowledge_def
  by (intro emits_intros) simp_all

lemma emits_deleteApplicationSubtest_plain:
  "emits (\<lambda>e. \<not> isGroupCall (fst e) \<and> \<not> isRunCall (fst e))
     (deleteApplicationSubtest api appMeta)"
  unfolding deleteApplicationSubtest_def
  by (intro emits_intros) simp_all


text \<open>The switch: a Scan subtest, a Run subtest, or nothing.\<close>

lemma dispatch_cases:
  assumes "dispatch fuel api td ai scn app s = (r, evs, ms, s')"
  obtains
    (scan) r1 w1 where
      "HasTag ai TagScan" "scanSubtest api td scn (world s) = (r1, evs, ms, w1)"
      "r = Returned ()" "s' = s\<lparr>world := w1\<rparr>"
  | (run) r1 where
      "\<not> HasTag ai TagScan" "HasTag ai TagRun"
      "runSubtest fuel api td scn app s = (r1, evs, ms, s')"
      "r = (if r1 = Goexit then Returned () else r1)" "r1 \<noteq> Blocked"
  | (other) "\<not> HasTag ai TagScan" "\<not> HasTag ai TagRun"
      "r = Returned ()" "evs = []" "ms = []" "s' = s"
proof -
  consider (a) "HasTag ai TagScan" | (b) "\<not> HasTag ai TagScan" "HasTag ai TagRun"
    | (c) "\<not> HasTag ai TagScan" "\<not> HasTag ai TagRun"
    by blast
  then show thesis
  proof cases
    case a
    obtain r1 es1 ms1 w1 where sc: "scanSubtest api td scn (world s) = (r1, es1, ms1, w1)"
      by (metis prod.exhaust)
    from finishesD [OF finishes_scanSubtest sc] have "r1 = Returned () \<or> r1 = Goexit"
      by (cases r1) simp_all
    with assms a sc show thesis
      by (intro scan [of r1 w1]) (auto simp add: dispatch_def t_Run_def onWorld_def)
  next
    case b
    obtain r1 es1 ms1 s1 where rn: "runSubtest fuel api td scn app s = (r1, es1, ms1, s1)"
      by (metis prod.exhaust)
    have nb: "r1 \<noteq> Blocked"
      using rn by (cases rule: runSubtest_cases) (auto split: if_splits)
    with assms b rn show thesis
      by (intro run [of r1]) (cases r1; simp add: dispatch_def t_Run_def)+
  next
    case c
    with assms show thesis
      by (intro other) (simp_all add: dispatch_def ret_def)
  qed
qed

lemma dispatch_facts:
  assumes "dispatch fuel api td ai scn app s = (r, evs, ms, s')"
  shows "r = Returned () \<or> r = Running \<or> r = Panic"
    and "r = Returned () \<Longrightarrow> run s = 0 \<Longrightarrow>
           run s' = 0 \<and> (\<forall>x \<in> set evs. \<not> isGroupCall (fst x) \<and> \<not> isRunCall (fst x))
           \<and> \<not> (HasTag ai TagRun \<and> \<not> HasTag ai TagScan)"
    and "r = Running \<Longrightarrow> run s' = run s \<and> (\<forall>x \<in> set evs. \<not> isGroupCall (fst x))"
    and "r = Panic \<Longrightarrow>
           evs \<noteq> [] \<and> last evs = (RunDone, [])
           \<and> (\<forall>x \<in> set (butlast evs). \<not> isGroupCall (fst x))
           \<and> HasTag ai TagRun \<and> \<not> HasTag ai TagScan"
proof -
  from assms show "r = Returned () \<or> r = Running \<or> r = Panic"
  proof (cases rule: dispatch_cases)
    case (run r1)
    then show ?thesis by (cases r1) simp_all
  qed simp_all
  from assms show "r = Returned () \<Longrightarrow> run s = 0 \<Longrightarrow>
           run s' = 0 \<and> (\<forall>x \<in> set evs. \<not> isGroupCall (fst x) \<and> \<not> isRunCall (fst x))
           \<and> \<not> (HasTag ai TagRun \<and> \<not> HasTag ai TagScan)"
  proof (cases rule: dispatch_cases)
    case (scan r1 w1)
    assume "run s = 0"
    with scan emitsD [OF emits_scanSubtest_plain scan(2)] show ?thesis by simp
  next
    case (run r1)
    assume ret: "r = Returned ()" and zero: "run s = 0"
    from run(3) show ?thesis
    proof (cases rule: runSubtest_cases)
      case (stillRunning w1)
      with run(4) ret show ?thesis by simp
    next
      case (ended r0 es w1)
      with zero have "r1 = Panic" by simp
      with run(4) ret show ?thesis by simp
    qed
  next
    case other
    assume "run s = 0"
    with other show ?thesis by simp
  qed
  from assms show "r = Running \<Longrightarrow> run s' = run s \<and> (\<forall>x \<in> set evs. \<not> isGroupCall (fst x))"
  proof (cases rule: dispatch_cases)
    case (run r1)
    assume rr: "r = Running"
    from run(3) show ?thesis
    proof (cases rule: runSubtest_cases)
      case (stillRunning w1)
      with emitsD [OF emits_runBody_no_group stillRunning(1)] show ?thesis by simp
    next
      case (ended r0 es w1)
      with run(4) rr show ?thesis by (auto split: if_splits)
    qed
  qed simp_all
  from assms show "r = Panic \<Longrightarrow>
           evs \<noteq> [] \<and> last evs = (RunDone, [])
           \<and> (\<forall>x \<in> set (butlast evs). \<not> isGroupCall (fst x))
           \<and> HasTag ai TagRun \<and> \<not> HasTag ai TagScan"
  proof (cases rule: dispatch_cases)
    case (run r1)
    assume rp: "r = Panic"
    from run(3) show ?thesis
    proof (cases rule: runSubtest_cases)
      case (stillRunning w1)
      with run(4) rp show ?thesis by simp
    next
      case (ended r0 es w1)
      with run(1,2) emitsD [OF emits_runBody_no_group ended(1)] show ?thesis by simp
    qed
  qed simp_all
qed

lemma acks_append: "acks (xs @ ys) = acks xs @ acks ys"
  by (simp add: acks_def)

lemma ackOf_other: "\<not> isDeleteActivity (fst e) \<Longrightarrow> ackOf e = []"
  by (cases e, cases "fst e") auto

lemma acks_none: "\<forall>e \<in> set es. \<not> isDeleteActivity (fst e) \<Longrightarrow> acks es = []"
  by (induction es) (simp_all add: acks_def ackOf_other)

lemma no_delete_in:
  "\<forall>x \<in> set es. \<not> isDeleteActivity (fst x) \<Longrightarrow> (CallDeleteActivity u, e) \<notin> set es"
proof
  assume all: "\<forall>x \<in> set es. \<not> isDeleteActivity (fst x)"
    and "(CallDeleteActivity u, e) \<in> set es"
  then have "\<not> isDeleteActivity (fst (CallDeleteActivity u, e))" by (rule bspec)
  then show False by simp
qed

lemma acks_ack: "acks [(CallDeleteActivity u, err)] = [u]"
  by (simp add: acks_def)

text \<open>
  One item: the lookups fail; or the subtest of the item is still running or has
  panicked; or the subtest has ended and the item is acknowledged.
\<close>

lemma handleItem_cases:
  assumes "handleItem fuel api td ai s = (r, evs, ms, s')"
  obtains
    (lookupFailed) w0 where
      "lookupItem api ai (world s) = (Goexit, evs, ms, w0)" "r = Goexit"
      "s' = s\<lparr>world := w0\<rparr>"
  | (notEnded) sa es0 ms0 w0 es1 ms1 where
      "lookupItem api ai (world s) = (Returned sa, es0, ms0, w0)"
      "dispatch fuel api td ai (fst sa) (snd sa) (s\<lparr>world := w0\<rparr>) = (r, es1, ms1, s')"
      "r = Running \<or> r = Panic" "evs = es0 @ es1"
  | (acknowledged) sa es0 ms0 w0 es1 ms1 s1 err w2 where
      "lookupItem api ai (world s) = (Returned sa, es0, ms0, w0)"
      "dispatch fuel api td ai (fst sa) (snd sa) (s\<lparr>world := w0\<rparr>) = (Returned (), es1, ms1, s1)"
      "DeleteActivity api (URL ai) (world s1) = (err, w2)"
      "evs = es0 @ es1 @ [(CallDeleteActivity (URL ai), err)]"
      "ms = ms0 @ ms1 @ (if err = [] then [] else [''failed to acknowledge activity''])"
      "r = (if err = [] then Returned () else Goexit)"
      "s' = s1\<lparr>world := w2\<rparr>"
proof -
  obtain r0 es0 ms0 w0 where lk: "lookupItem api ai (world s) = (r0, es0, ms0, w0)"
    by (metis prod.exhaust)
  note fin = finishesD [OF finishes_lookupItem lk]
  show thesis
  proof (cases r0)
    case Goexit
    with assms lk have "evs = es0" "ms = ms0" "s' = s\<lparr>world := w0\<rparr>" "r = Goexit"
      by (simp_all add: handleItem_def andThen_def onWorld_def)
    with lk Goexit show thesis by (intro lookupFailed [of w0]) simp_all
  next
    case Running
    with fin show thesis by simp
  next
    case Panic
    with fin show thesis by simp
  next
    case Blocked
    with fin show thesis by simp
  next
    case (Returned sa)
    obtain r1 es1 ms1 s1 where
      dp: "dispatch fuel api td ai (fst sa) (snd sa) (s\<lparr>world := w0\<rparr>) = (r1, es1, ms1, s1)"
      by (metis prod.exhaust)
    from dispatch_facts(1) [OF dp] consider "r1 = Returned ()" | "r1 = Running" | "r1 = Panic"
      by blast
    then show thesis
    proof cases
      case 2
      with assms lk Returned dp have "evs = es0 @ es1" "r = Running" "s' = s1"
        by (simp_all add: handleItem_def andThen_def onWorld_def split: prod.splits)
      with lk Returned dp 2 show thesis by (intro notEnded [of sa es0 ms0 w0 es1 ms1]) simp_all
    next
      case 3
      with assms lk Returned dp have "evs = es0 @ es1" "r = Panic" "s' = s1"
        by (simp_all add: handleItem_def andThen_def onWorld_def split: prod.splits)
      with lk Returned dp 3 show thesis by (intro notEnded [of sa es0 ms0 w0 es1 ms1]) simp_all
    next
      case 1
      obtain err w2 where del: "DeleteActivity api (URL ai) (world s1) = (err, w2)"
        by (metis prod.exhaust)
      from assms lk Returned dp 1 del
      have "evs = es0 @ es1 @ [(CallDeleteActivity (URL ai), err)]"
        and "ms = ms0 @ ms1 @ (if err = [] then [] else [''failed to acknowledge activity''])"
        and "r = (if err = [] then Returned () else Goexit)" and "s' = s1\<lparr>world := w2\<rparr>"
        by (auto simp add: handleItem_def andThen_def onWorld_def acknowledge_def callE_def
              require_def split: prod.splits if_splits)
      with lk Returned dp 1 del show thesis
        by (intro acknowledged [of sa es0 ms0 w0 es1 ms1 s1 err w2]) simp_all
    qed
  qed
qed


lemma handleItem_acks:
  assumes "handleItem fuel api td ai s = (r, evs, ms, s')"
  shows "acks evs =
           (if fst (lookupItem api ai (world s)) \<noteq> Goexit \<and> r \<noteq> Running \<and> r \<noteq> Panic
            then [URL ai] else [])"
    and "acks evs \<noteq> [] \<Longrightarrow> evs \<noteq> [] \<and> fst (last evs) = CallDeleteActivity (URL ai)"
    and "r = Returned () \<Longrightarrow> acks evs = [URL ai]"
    and "(CallDeleteActivity u, e) \<in> set evs \<Longrightarrow> e \<noteq> [] \<Longrightarrow>
           r = Goexit \<and> last evs = (CallDeleteActivity u, e) \<and> ms \<noteq> []
           \<and> last ms = ''failed to acknowledge activity''"
    and "r = Returned () \<Longrightarrow> \<forall>x \<in> set evs. isDeleteActivity (fst x) \<longrightarrow> snd x = []"
proof -
  note lk = emitsD [OF emits_lookupItem]
  note dp = emitsD [OF emits_dispatch]
  from assms show
    "acks evs =
       (if fst (lookupItem api ai (world s)) \<noteq> Goexit \<and> r \<noteq> Running \<and> r \<noteq> Panic
        then [URL ai] else [])"
  proof (cases rule: handleItem_cases)
    case lookupFailed
    then show ?thesis using lk [OF lookupFailed(1)] by (simp add: acks_none)
  next
    case notEnded
    then show ?thesis
      using lk [OF notEnded(1)] dp [OF notEnded(2)] by (auto simp add: acks_append acks_none)
  next
    case acknowledged
    then show ?thesis
      using lk [OF acknowledged(1)] dp [OF acknowledged(2)]
      by (simp add: acks_append acks_none acks_ack)
  qed
  from assms show
    "acks evs \<noteq> [] \<Longrightarrow> evs \<noteq> [] \<and> fst (last evs) = CallDeleteActivity (URL ai)"
  proof (cases rule: handleItem_cases)
    case lookupFailed
    assume "acks evs \<noteq> []"
    then show ?thesis using lk [OF lookupFailed(1)] by (simp add: acks_none)
  next
    case notEnded
    assume "acks evs \<noteq> []"
    then show ?thesis
      using notEnded lk [OF notEnded(1)] dp [OF notEnded(2)]
      by (simp add: acks_append acks_none)
  next
    case acknowledged
    then show ?thesis by simp
  qed
  from assms show "r = Returned () \<Longrightarrow> acks evs = [URL ai]"
  proof (cases rule: handleItem_cases)
    case lookupFailed
    assume "r = Returned ()"
    with lookupFailed show ?thesis by simp
  next
    case notEnded
    assume "r = Returned ()"
    with notEnded show ?thesis by auto
  next
    case acknowledged
    then show ?thesis
      using lk [OF acknowledged(1)] dp [OF acknowledged(2)]
      by (simp add: acks_append acks_none acks_ack)
  qed
  from assms show "(CallDeleteActivity u, e) \<in> set evs \<Longrightarrow> e \<noteq> [] \<Longrightarrow>
           r = Goexit \<and> last evs = (CallDeleteActivity u, e) \<and> ms \<noteq> []
           \<and> last ms = ''failed to acknowledge activity''"
  proof (cases rule: handleItem_cases)
    case lookupFailed
    assume "(CallDeleteActivity u, e) \<in> set evs"
    then show ?thesis using no_delete_in [OF lk [OF lookupFailed(1)]] by simp
  next
    case notEnded
    assume "(CallDeleteActivity u, e) \<in> set evs"
    then show ?thesis
      using notEnded(4) no_delete_in [OF lk [OF notEnded(1)]]
        no_delete_in [OF dp [OF notEnded(2)]] by simp
  next
    case (acknowledged sa es0 ms0 w0 es1 ms1 s1 err w2)
    assume a: "(CallDeleteActivity u, e) \<in> set evs" and b: "e \<noteq> []"
    from a acknowledged(4) no_delete_in [OF lk [OF acknowledged(1)]]
      no_delete_in [OF dp [OF acknowledged(2)]]
    have "(CallDeleteActivity u, e) = (CallDeleteActivity (URL ai), err)"
      by simp
    with b acknowledged show ?thesis by simp
  qed
  from assms show
    "r = Returned () \<Longrightarrow> \<forall>x \<in> set evs. isDeleteActivity (fst x) \<longrightarrow> snd x = []"
  proof (cases rule: handleItem_cases)
    case lookupFailed
    assume "r = Returned ()"
    with lookupFailed show ?thesis by simp
  next
    case notEnded
    assume "r = Returned ()"
    with notEnded show ?thesis by auto
  next
    case (acknowledged sa es0 ms0 w0 es1 ms1 s1 err w2)
    assume "r = Returned ()"
    with acknowledged(6) have "err = []" by (simp split: if_splits)
    with acknowledged(4) lk [OF acknowledged(1)] dp [OF acknowledged(2)]
    show ?thesis by auto
  qed
qed

text \<open>
  One item handled with the counter of the wait group at zero: the counter stays at
  zero unless the item has a Run subtest whose body ends, and then the deferred
  \<^verbatim>\<open>run.Done()\<close> panics as the last event; an item with a Run subtest is not
  acknowledged.
\<close>

lemma handleItem_run0:
  assumes "handleItem fuel api td ai s = (r, evs, ms, s')" and "run s = 0"
  shows "r \<noteq> Blocked"
    and "r \<noteq> Panic \<Longrightarrow> run s' = 0 \<and> (\<forall>x \<in> set evs. \<not> isGroupCall (fst x))"
    and "r = Panic \<Longrightarrow>
           evs \<noteq> [] \<and> last evs = (RunDone, [])
           \<and> (\<forall>x \<in> set (butlast evs). \<not> isGroupCall (fst x))"
    and "HasTag ai TagRun \<Longrightarrow> \<not> HasTag ai TagScan \<Longrightarrow> acks evs = []"
proof -
  note lk = emitsD [OF emits_lookupItem_plain]
  note ak = emitsD [OF emits_acknowledge_plain]
  from assms(1) show "r \<noteq> Blocked"
    by (cases rule: handleItem_cases) (auto split: if_splits)
  from assms(1) show "r \<noteq> Panic \<Longrightarrow> run s' = 0 \<and> (\<forall>x \<in> set evs. \<not> isGroupCall (fst x))"
  proof (cases rule: handleItem_cases)
    case (lookupFailed w0)
    with assms(2) lk [OF lookupFailed(1)] show ?thesis by simp
  next
    case (notEnded sa es0 ms0 w0 es1 ms1)
    assume "r \<noteq> Panic"
    with notEnded(3) have "r = Running" by simp
    with dispatch_facts(3) [OF notEnded(2)] assms(2) notEnded(4) lk [OF notEnded(1)]
    show ?thesis by auto
  next
    case (acknowledged sa es0 ms0 w0 es1 ms1 s1 err w2)
    from dispatch_facts(2) [OF acknowledged(2)] assms(2)
    have "run s1 = 0" "\<forall>x \<in> set es1. \<not> isGroupCall (fst x)" by simp_all
    with acknowledged(4,7) lk [OF acknowledged(1)] show ?thesis by auto
  qed
  from assms(1) show "r = Panic \<Longrightarrow>
           evs \<noteq> [] \<and> last evs = (RunDone, [])
           \<and> (\<forall>x \<in> set (butlast evs). \<not> isGroupCall (fst x))"
  proof (cases rule: handleItem_cases)
    case (lookupFailed w0)
    assume "r = Panic"
    with lookupFailed show ?thesis by simp
  next
    case (notEnded sa es0 ms0 w0 es1 ms1)
    assume "r = Panic"
    from dispatch_facts(4) [OF notEnded(2) this]
    have "es1 \<noteq> []" "last es1 = (RunDone, [])" "\<forall>x \<in> set (butlast es1). \<not> isGroupCall (fst x)"
      by simp_all
    with notEnded(4) lk [OF notEnded(1)] show ?thesis
      by (auto simp add: butlast_append)
  next
    case (acknowledged sa es0 ms0 w0 es1 ms1 s1 err w2)
    assume "r = Panic"
    with acknowledged(6) show ?thesis by (simp split: if_splits)
  qed
  from assms(1) show "HasTag ai TagRun \<Longrightarrow> \<not> HasTag ai TagScan \<Longrightarrow> acks evs = []"
  proof (cases rule: handleItem_cases)
    case (lookupFailed w0)
    with handleItem_acks(1) [OF assms(1)] show ?thesis by simp
  next
    case (notEnded sa es0 ms0 w0 es1 ms1)
    with handleItem_acks(1) [OF assms(1)] show ?thesis by auto
  next
    case (acknowledged sa es0 ms0 w0 es1 ms1 s1 err w2)
    assume "HasTag ai TagRun" "\<not> HasTag ai TagScan"
    with dispatch_facts(2) [OF acknowledged(2)] assms(2) show ?thesis by simp
  qed
qed

lemma handleActivity_acks:
  "handleActivity fuel api td items s = (r, evs, ms, s') \<Longrightarrow>
     prefix (acks evs) (map URL items) \<and> (r = Returned () \<longrightarrow> acks evs = map URL items)"
proof (induction items arbitrary: s r evs ms s')
  case Nil
  then show ?case by (simp add: ret_def acks_def)
next
  case (Cons ai items)
  obtain r1 es1 ms1 s1 where item: "handleItem fuel api td ai s = (r1, es1, ms1, s1)"
    by (metis prod.exhaust)
  show ?case
  proof (cases "r1 = Returned ()")
    case True
    obtain r2 es2 ms2 s2 where rest: "handleActivity fuel api td items s1 = (r2, es2, ms2, s2)"
      by (metis prod.exhaust)
    from Cons.prems item True rest have "evs = es1 @ es2" "r = r2"
      by (simp_all add: andThen_def)
    moreover from handleItem_acks(3) [OF item True] have "acks es1 = [URL ai]" .
    ultimately show ?thesis
      using Cons.IH [OF rest] by (simp add: acks_append)
  next
    case False
    with Cons.prems item have "evs = es1" "r = r1"
      by (cases r1; simp add: andThen_def)+
    with False handleItem_acks(1) [OF item] show ?thesis
      by (simp split: if_splits)
  qed
qed

lemma handleActivity_first:
  assumes "handleItem fuel api td ai s = (r, evs, ms, s')"
    and "handleActivity fuel api td (ai # items) s = (R, EVS, MS, t')"
  shows "prefix evs EVS \<and> (r \<noteq> Returned () \<longrightarrow> R = r \<and> EVS = evs)"
proof (cases "r = Returned ()")
  case True
  obtain r2 es2 ms2 s2 where rest: "handleActivity fuel api td items s' = (r2, es2, ms2, s2)"
    by (metis prod.exhaust)
  from assms True rest have "EVS = evs @ es2"
    by (simp add: andThen_def)
  with True show ?thesis by simp
next
  case False
  with assms have "EVS = evs" "R = r"
    by (cases r; simp add: andThen_def)+
  then show ?thesis by simp
qed

lemma handleActivity_failed_ack:
  "handleActivity fuel api td items s = (r, evs, ms, s') \<Longrightarrow>
   (CallDeleteActivity u, e) \<in> set evs \<Longrightarrow> e \<noteq> [] \<Longrightarrow>
     r = Goexit \<and> last evs = (CallDeleteActivity u, e) \<and> ms \<noteq> []
     \<and> last ms = ''failed to acknowledge activity''"
proof (induction items arbitrary: s r evs ms s')
  case Nil
  then show ?case by (simp add: ret_def)
next
  case (Cons ai items)
  obtain r1 es1 ms1 s1 where item: "handleItem fuel api td ai s = (r1, es1, ms1, s1)"
    by (metis prod.exhaust)
  show ?case
  proof (cases "r1 = Returned ()")
    case True
    obtain r2 es2 ms2 s2 where rest: "handleActivity fuel api td items s1 = (r2, es2, ms2, s2)"
      by (metis prod.exhaust)
    from Cons.prems(1) item True rest
    have evs: "evs = es1 @ es2" and r: "r = r2" and ms: "ms = ms1 @ ms2"
      by (simp_all add: andThen_def)
    have "(CallDeleteActivity u, e) \<notin> set es1"
    proof
      assume "(CallDeleteActivity u, e) \<in> set es1"
      with handleItem_acks(5) [OF item True]
      have "isDeleteActivity (fst (CallDeleteActivity u, e)) \<longrightarrow> snd (CallDeleteActivity u, e) = []"
        by (rule bspec)
      with Cons.prems(3) show False by simp
    qed
    with Cons.prems(2) evs have "(CallDeleteActivity u, e) \<in> set es2" by simp
    from Cons.IH [OF rest this Cons.prems(3)]
    have "r2 = Goexit" "last es2 = (CallDeleteActivity u, e)" "ms2 \<noteq> []"
      "last ms2 = ''failed to acknowledge activity''"
      by simp_all
    moreover from \<open>(CallDeleteActivity u, e) \<in> set es2\<close> have "es2 \<noteq> []" by auto
    ultimately show ?thesis
      unfolding evs r ms by simp
  next
    case False
    with Cons.prems(1) item have "evs = es1" "r = r1" "ms = ms1"
      by (cases r1; simp add: andThen_def)+
    with handleItem_acks(4) [OF item] Cons.prems(2,3) show ?thesis
      by simp
  qed
qed

lemma handleActivity_run0:
  "handleActivity fuel api td items s = (r, evs, ms, s') \<Longrightarrow> run s = 0 \<Longrightarrow>
     r \<noteq> Blocked
     \<and> (r \<noteq> Panic \<longrightarrow> (\<forall>x \<in> set evs. \<not> isGroupCall (fst x)))
     \<and> (r = Panic \<longrightarrow> evs \<noteq> [] \<and> last evs = (RunDone, [])
           \<and> (\<forall>x \<in> set (butlast evs). \<not> isGroupCall (fst x)))"
proof (induction items arbitrary: s r evs ms s')
  case Nil
  then show ?case by (auto simp add: ret_def)
next
  case (Cons ai items)
  obtain r1 es1 ms1 s1 where item: "handleItem fuel api td ai s = (r1, es1, ms1, s1)"
    by (metis prod.exhaust)
  note h = handleItem_run0 [OF item Cons.prems(2)]
  show ?case
  proof (cases "r1 = Returned ()")
    case True
    obtain r2 es2 ms2 s2 where rest: "handleActivity fuel api td items s1 = (r2, es2, ms2, s2)"
      by (metis prod.exhaust)
    from Cons.prems(1) item True rest
    have evs: "evs = es1 @ es2" and r: "r = r2"
      by (simp_all add: andThen_def)
    from h(2) True have one: "run s1 = 0" "\<forall>x \<in> set es1. \<not> isGroupCall (fst x)"
      by simp_all
    from Cons.IH [OF rest one(1)] one(2) show ?thesis
      unfolding evs r by (auto simp add: butlast_append)
  next
    case False
    with Cons.prems(1) item have "evs = es1" "r = r1"
      by (cases r1; simp add: andThen_def)+
    with h show ?thesis by simp
  qed
qed


lemmas run_defs =
  runTest_def requestActivity_def deleteApplicationSubtest_def handleActivitySubtest_def
  handleItem_def lookupItem_def dispatch_def acknowledge_def runSubtest_def runBody_def
  scanSubtest_def deferring_def onWorld_def run_Add_def run_Done_def run_Wait_def
  t_Run_def andThen_def callE_def callV_def event_def require_def assert_def skip_def
  ret_def newName_def trialLoop_Suc baselineTrial_def Link_def label_def HasTag_def
  experimentStopped_def

lemmas demo_defs =
  demoAPI_def demoTd_def demoScenario_def demoApplication_def demoExperiment_def
  demoTrial_def demoFeed_def demoAppMeta_def demoScnMeta_def scanItem_def rescanItem_def
  runItem_def start_def unavailable_def unavailableScenario_def unavailableDelete_def
  unavailableRun_def

text \<open>
  Claim C2, as the code has it. For an item taken from the channel, \<^verbatim>\<open>DeleteActivity\<close>
  is called at most once, on the URL of that item, and when it is called it is the last
  call made for the item, after the Scan or Run subtest has ended; it is called exactly
  when the lookups before the switch succeed and the subtest of the item ends without
  a panic, whether the subtest passed or left through \<^verbatim>\<open>FailNow\<close>. The consumer runs
  with the counter of the wait group at zero, and then an item handled by the Run
  subtest is never acknowledged: the deferred \<^verbatim>\<open>run.Done()\<close> panics before line 189.
  The loop on this item and the items after it starts with the events of the item and
  ends with them unless the item has been acknowledged without error; over the whole
  loop the acknowledged URLs are a prefix of the URLs of the items received, in order,
  and all of them when the loop returns: no item is acknowledged twice.
\<close>

theorem handleItem_acknowledges_once_after_handling:
  assumes "handleItem fuel api td ai s = (r, evs, ms, s')"
    and "handleActivity fuel api td (ai # items) s = (R, EVS, MS, t')"
  shows "(acks evs = [URL ai] \<or> acks evs = [])
       \<and> (acks evs = [URL ai]) =
           (fst (lookupItem api ai (world s)) \<noteq> Goexit \<and> r \<noteq> Running \<and> r \<noteq> Panic)
       \<and> (acks evs = [URL ai] \<longrightarrow> evs \<noteq> [] \<and> fst (last evs) = CallDeleteActivity (URL ai))
       \<and> (r = Returned () \<longrightarrow> acks evs = [URL ai])
       \<and> (run s = 0 \<and> HasTag ai TagRun \<and> \<not> HasTag ai TagScan \<longrightarrow> acks evs = [])
       \<and> prefix evs EVS
       \<and> (r \<noteq> Returned () \<longrightarrow> R = r \<and> EVS = evs)
       \<and> prefix (acks EVS) (map URL (ai # items))
       \<and> (R = Returned () \<longrightarrow> acks EVS = map URL (ai # items))"
proof -
  note a = handleItem_acks(1) [OF assms(1)]
  have 1: "acks evs = [URL ai] \<or> acks evs = []"
    unfolding a by simp
  have 2: "(acks evs = [URL ai]) =
           (fst (lookupItem api ai (world s)) \<noteq> Goexit \<and> r \<noteq> Running \<and> r \<noteq> Panic)"
    unfolding a by simp
  have 3: "acks evs = [URL ai] \<longrightarrow> evs \<noteq> [] \<and> fst (last evs) = CallDeleteActivity (URL ai)"
    using handleItem_acks(2) [OF assms(1)] by simp
  have 4: "r = Returned () \<longrightarrow> acks evs = [URL ai]"
    using handleItem_acks(3) [OF assms(1)] by simp
  have 5: "run s = 0 \<and> HasTag ai TagRun \<and> \<not> HasTag ai TagScan \<longrightarrow> acks evs = []"
    using handleItem_run0(4) [OF assms(1)] by simp
  note 6 = handleActivity_acks [OF assms(2)]
  note 7 = handleActivity_first [OF assms]
  from 1 2 3 4 5 show ?thesis
    by (intro conjI 6 [THEN conjunct1] 6 [THEN conjunct2] 7 [THEN conjunct1]
          7 [THEN conjunct2])
qed

text \<open>
  A Scan item is acknowledged after its subtest, in the loop and in a whole run of
  \<^verbatim>\<open>runTest\<close> whose request for the run was refused; a Run item is not.
\<close>

theorem handleItem_acknowledges_once_after_handling_witness:
  "fst (handleItem 1 (demoAPI 0) demoTd scanItem start) = Returned ()
   \<and> fst (lookupItem (demoAPI 0) scanItem (world start))
       = Returned (demoScenario, demoApplication)
   \<and> acks (fst (snd (handleItem 1 (demoAPI 0) demoTd scanItem start))) = [''/feed/1'']
   \<and> last (fst (snd (handleItem 1 (demoAPI 0) demoTd scanItem start)))
       = (CallDeleteActivity ''/feed/1'', [])
   \<and> fst (handleActivity 1 (demoAPI 0) demoTd [scanItem, rescanItem] start) = Returned ()
   \<and> acks (fst (snd (handleActivity 1 (demoAPI 0) demoTd [scanItem, rescanItem] start)))
       = [''/feed/1'', ''/feed/3'']
   \<and> run start = 0 \<and> HasTag runItem TagRun \<and> \<not> HasTag runItem TagScan
   \<and> fst (handleItem 1 (demoAPI 0) demoTd runItem start) = Panic
   \<and> acks (fst (snd (handleItem 1 (demoAPI 0) demoTd runItem start))) = []
   \<and> fst (runTest True 1 unavailableRun demoTd demoAppMeta demoScnMeta [scanItem] start)
       = Returned ()
   \<and> acks (fst (snd (runTest True 1 unavailableRun demoTd demoAppMeta demoScnMeta
                        [scanItem] start))) = [''/feed/1'']"
proof -
  obtain r evs ms s' where
    item: "handleItem 1 (demoAPI 0) demoTd scanItem start = (r, evs, ms, s')"
    by (metis prod.exhaust)
  obtain R EVS MS t' where
    loop: "handleActivity 1 (demoAPI 0) demoTd [scanItem, rescanItem] start = (R, EVS, MS, t')"
    by (metis prod.exhaust)
  have r: "fst (handleItem 1 (demoAPI 0) demoTd scanItem start) = Returned ()"
    by (simp add: run_defs demo_defs)
  have lk: "fst (lookupItem (demoAPI 0) scanItem (world start))
       = Returned (demoScenario, demoApplication)"
    by (simp add: run_defs demo_defs)
  have l: "last (fst (snd (handleItem 1 (demoAPI 0) demoTd scanItem start)))
       = (CallDeleteActivity ''/feed/1'', [])"
    by (simp add: run_defs demo_defs)
  have R: "fst (handleActivity 1 (demoAPI 0) demoTd [scanItem, rescanItem] start) = Returned ()"
    by (simp add: run_defs demo_defs)
  from handleItem_acknowledges_once_after_handling [OF item loop] r R item loop
  have "acks evs = [URL scanItem]" and "acks EVS = map URL [scanItem, rescanItem]"
    by simp_all
  with item loop
  have a: "acks (fst (snd (handleItem 1 (demoAPI 0) demoTd scanItem start))) = [''/feed/1'']"
    and b: "acks (fst (snd (handleActivity 1 (demoAPI 0) demoTd [scanItem, rescanItem] start)))
       = [''/feed/1'', ''/feed/3'']"
    by (simp_all add: scanItem_def rescanItem_def)
  have c: "run start = 0 \<and> HasTag runItem TagRun \<and> \<not> HasTag runItem TagScan"
    by (simp add: start_def runItem_def HasTag_def)
  have d: "fst (handleItem 1 (demoAPI 0) demoTd runItem start) = Panic"
    by (simp add: run_defs demo_defs)
  have e: "acks (fst (snd (handleItem 1 (demoAPI 0) demoTd runItem start))) = []"
    by (simp add: run_defs demo_defs acks_def)
  have f: "fst (runTest True 1 unavailableRun demoTd demoAppMeta demoScnMeta [scanItem] start)
       = Returned ()"
    by (simp add: run_defs demo_defs)
  have g: "acks (fst (snd (runTest True 1 unavailableRun demoTd demoAppMeta demoScnMeta
                        [scanItem] start))) = [''/feed/1'']"
    by (simp add: run_defs demo_defs acks_def)
  from r lk a l R b c d e f g show ?thesis by simp
qed

text \<open>
  The claim as worded fails for an item whose scenario cannot be fetched: the item has
  been received, the consumer leaves through \<^verbatim>\<open>FailNow\<close>, and \<^verbatim>\<open>DeleteActivity\<close> is not
  called for it.
\<close>

theorem handleItem_unacknowledged_counterexample:
  "handleItem 1 unavailableScenario demoTd scanItem start =
     (Goexit, [(CallGetScenario ''/scn'', unavailable)],
      [''failed to retrieve activity scenario''], start)
   \<and> acks [(CallGetScenario ''/scn'', unavailable)] = []"
  by (simp add: run_defs demo_defs acks_def)

text \<open>
  Claim C3, as the code has it. A \<^verbatim>\<open>DeleteActivity\<close> that returns an error is the last
  call of the consumer loop: the failure is logged as the last message and the loop
  leaves through \<^verbatim>\<open>FailNow\<close>, so no later item is taken from the channel.
\<close>

theorem handleActivity_stops_on_failed_acknowledgement:
  assumes "handleActivity fuel api td items w = (r, evs, ms, w')"
    and "(CallDeleteActivity u, e) \<in> set evs"
    and "e \<noteq> []"
  shows "r = Goexit \<and> last evs = (CallDeleteActivity u, e) \<and> ms \<noteq> []
       \<and> last ms = ''failed to acknowledge activity''"
  using assms by (rule handleActivity_failed_ack)

theorem handleActivity_stops_on_failed_acknowledgement_witness:
  "(CallDeleteActivity ''/feed/1'', unavailable)
     \<in> set (fst (snd (handleActivity 1 unavailableDelete demoTd [scanItem, runItem] start)))
   \<and> unavailable \<noteq> []
   \<and> fst (handleActivity 1 unavailableDelete demoTd [scanItem, runItem] start) = Goexit
   \<and> last (fst (snd (handleActivity 1 unavailableDelete demoTd [scanItem, runItem] start)))
       = (CallDeleteActivity ''/feed/1'', unavailable)"
proof -
  obtain r evs ms w' where
    loop: "handleActivity 1 unavailableDelete demoTd [scanItem, runItem] start = (r, evs, ms, w')"
    by (metis prod.exhaust)
  have "(CallDeleteActivity ''/feed/1'', unavailable)
     \<in> set (fst (snd (handleActivity 1 unavailableDelete demoTd [scanItem, runItem] start)))"
    by (simp add: run_defs demo_defs)
  with loop have mem: "(CallDeleteActivity ''/feed/1'', unavailable) \<in> set evs"
    by simp
  have ne: "unavailable \<noteq> []"
    by (simp add: unavailable_def)
  from handleActivity_stops_on_failed_acknowledgement [OF loop mem ne] loop mem ne
  show ?thesis by simp
qed

text \<open>
  The claim as worded fails on two items when the first acknowledgement is refused:
  the loop ends there, and the second item, \<open>/feed/2\<close>, is not handled.
\<close>

theorem handleActivity_failed_acknowledgement_counterexample:
  "handleActivity 1 unavailableDelete demoTd [scanItem, runItem] start =
     (Goexit,
      [(CallGetScenario ''/scn'', []), (CallGetApplication ''/app'', []),
       (CallUpdateTemplate ''/scn/template'' ''template'', []),
       (CallDeleteActivity ''/feed/1'', unavailable)],
      [''failed to acknowledge activity''], start)
   \<and> URL runItem = ''/feed/2''"
  by (simp add: run_defs demo_defs)

section \<open>Properties of the wait group\<close>

lemma requestActivity_trace:
  assumes "requestActivity ok api scnMeta s = (r, evs, ms, s')"
  shows "(r = Returned () \<or> r = Goexit)
       \<and> (r = Goexit \<longrightarrow> run s' = run s
            \<and> (\<forall>x \<in> set evs. \<not> isGroupCall (fst x) \<and> \<not> isRunCall (fst x)))
       \<and> (r = Returned () \<longrightarrow> run s' = run s + 1 \<and>
            evs = [(CallListApplications, []),
                   (CallCreateActivity
                      (Link (fst (fst (ListApplications api (world s)))) RelationAlternate)
                      (ScanActivity (Location scnMeta)), []),
                   (CallCreateActivity
                      (Link (fst (fst (ListApplications api (world s)))) RelationAlternate)
                      (RunActivity (Location scnMeta)), []),
                   (RunAdd, [])])"
proof -
  obtain lst e1 w1 where la: "ListApplications api (world s) = ((lst, e1), w1)"
    by (metis prod.exhaust)
  obtain e2 w2 where cs:
    "CreateActivity api (Link lst RelationAlternate) (ScanActivity (Location scnMeta)) w1 = (e2, w2)"
    by (metis prod.exhaust)
  obtain e3 w3 where cr:
    "CreateActivity api (Link lst RelationAlternate) (RunActivity (Location scnMeta)) w2 = (e3, w3)"
    by (metis prod.exhaust)
  consider (skipped) "\<not> ok" | (a) "ok" "e1 \<noteq> []" | (b) "ok" "e1 = []" "e2 \<noteq> []"
    | (c) "ok" "e1 = []" "e2 = []" "e3 \<noteq> []" | (d) "ok" "e1 = []" "e2 = []" "e3 = []"
    by blast
  then show ?thesis
  proof cases
    case skipped
    with assms show ?thesis
      by (auto simp add: requestActivity_def andThen_def skip_def)
  next
    case a
    with assms la show ?thesis
      by (auto simp add: requestActivity_def andThen_def ret_def callV_def require_def
            onWorld_def)
  next
    case b
    with assms la cs show ?thesis
      by (auto simp add: requestActivity_def andThen_def ret_def callV_def callE_def require_def
            onWorld_def)
  next
    case c
    with assms la cs cr show ?thesis
      by (auto simp add: requestActivity_def andThen_def ret_def callV_def callE_def require_def
            onWorld_def)
  next
    case d
    with assms la cs cr show ?thesis
      by (auto simp add: requestActivity_def andThen_def ret_def callV_def callE_def require_def
            onWorld_def run_Add_def)
  qed
qed

lemma deleteApplication_trace:
  assumes "t_Run (onWorld (deleteApplicationSubtest api appMeta)) s = (r, evs, ms, s')"
  shows "r = Returned () \<and> run s' = run s
       \<and> (\<forall>x \<in> set evs. \<not> isGroupCall (fst x) \<and> \<not> isRunCall (fst x))"
proof -
  obtain r1 es1 ms1 w1 where
    d: "deleteApplicationSubtest api appMeta (world s) = (r1, es1, ms1, w1)"
    by (metis prod.exhaust)
  from finishesD [OF finishes_deleteApplicationSubtest d]
  have "r1 = Goexit \<or> (\<exists>u. r1 = Returned u)"
    by (cases r1) simp_all
  with assms d emitsD [OF emits_deleteApplicationSubtest_plain d] show ?thesis
    by (auto simp add: t_Run_def onWorld_def)
qed

lemma consumer_run0:
  assumes "t_Run (handleActivitySubtest ok fuel api td items) s = (r, evs, ms, s')"
    and "run s = 0"
  shows "r \<noteq> Blocked
       \<and> (r \<noteq> Panic \<longrightarrow> (\<forall>x \<in> set evs. \<not> isGroupCall (fst x)))
       \<and> (r = Panic \<longrightarrow> evs \<noteq> [] \<and> last evs = (RunDone, [])
             \<and> (\<forall>x \<in> set (butlast evs). \<not> isGroupCall (fst x)))"
proof (cases ok)
  case False
  with assms(1) show ?thesis
    by (auto simp add: t_Run_def handleActivitySubtest_def andThen_def skip_def)
next
  case True
  obtain r2 es2 ms2 s2 where
    loop: "handleActivity fuel api td items s = (r2, es2, ms2, s2)"
    by (metis prod.exhaust)
  from True assms(1) loop have "evs = es2" and "r = (if r2 = Goexit then Returned () else r2)"
    by (cases r2; simp add: t_Run_def handleActivitySubtest_def andThen_def ret_def)+
  with handleActivity_run0 [OF loop assms(2)] show ?thesis
    by (auto split: if_splits)
qed

text \<open>
  The two ways a run of \<^verbatim>\<open>runTest\<close> goes on after the Request Activity subtest: the
  run was counted and \<^verbatim>\<open>run.Wait()\<close> blocks; or it was not, and the Handle Activity
  subtest runs after \<^verbatim>\<open>cancelSub()\<close> and the Delete Application subtest.
\<close>

lemma runTest_cases:
  assumes "runTest ok fuel api td appMeta scnMeta items s = (r, evs, ms, s')"
    and "run s = 0"
  obtains
    (counted) es0 where
      "requestActivity ok api scnMeta s = (Returned (), es0, ms, s')"
      "r = Blocked" "evs = es0 @ [(RunWait, [])]"
  | (uncounted) es0 ms0 s0 esd es2 where
      "requestActivity ok api scnMeta s = (Goexit, es0, ms0, s0)"
      "evs = es0 @ [(RunWait, []), (CancelSub, [])] @ esd @ es2"
      "\<forall>x \<in> set esd. \<not> isGroupCall (fst x) \<and> \<not> isRunCall (fst x)"
      "r \<noteq> Blocked"
      "r \<noteq> Panic \<longrightarrow> (\<forall>x \<in> set es2. \<not> isGroupCall (fst x))"
      "r = Panic \<longrightarrow> es2 \<noteq> [] \<and> last es2 = (RunDone, [])
         \<and> (\<forall>x \<in> set (butlast es2). \<not> isGroupCall (fst x))"
proof -
  obtain r0 es0 ms0 s0 where req: "requestActivity ok api scnMeta s = (r0, es0, ms0, s0)"
    by (metis prod.exhaust)
  note t = requestActivity_trace [OF req]
  from t consider "r0 = Returned ()" | "r0 = Goexit" by blast
  then show thesis
  proof cases
    case 1
    with t assms(2) have "run s0 = 1" by simp
    with assms(1) req 1 have "r = Blocked" "evs = es0 @ [(RunWait, [])]" "ms = ms0" "s' = s0"
      by (simp_all add: runTest_def andThen_def t_Run_def run_Wait_def)
    with req 1 show thesis by (intro counted [of es0]) simp_all
  next
    case 2
    with t assms(2) have zero: "run s0 = 0" by simp
    obtain rd esd msd sd where
      del: "t_Run (onWorld (deleteApplicationSubtest api appMeta)) s0 = (rd, esd, msd, sd)"
      by (metis prod.exhaust)
    note dt = deleteApplication_trace [OF del]
    obtain r2 es2 ms2 s2 where
      con: "t_Run (handleActivitySubtest ok fuel api td items) sd = (r2, es2, ms2, s2)"
      by (metis prod.exhaust)
    from dt zero have "run sd = 0" by simp
    note ct = consumer_run0 [OF con this]
    from assms(1) req 2 zero del dt con
    have "r = r2" "evs = es0 @ [(RunWait, []), (CancelSub, [])] @ esd @ es2"
      by (simp_all add: runTest_def andThen_def t_Run_def run_Wait_def event_def)
    with req 2 dt ct show thesis
      by (intro uncounted [of es0 ms0 s0 esd es2]) simp_all
  qed
qed

lemma group_free:
  "\<forall>x \<in> set es. \<not> isGroupCall (fst x) \<Longrightarrow>
     (RunAdd, e) \<notin> set es \<and> (RunDone, e) \<notin> set es \<and> (\<forall>x \<in> set es. fst x \<noteq> CancelSub)"
  by force

lemma panic_tail:
  assumes "es \<noteq> []" and "last es = (RunDone, [])"
    and "\<forall>x \<in> set (butlast es). \<not> isGroupCall (fst x)"
  shows "(RunAdd, e) \<notin> set es \<and> (RunDone, []) \<in> set es \<and> (\<forall>x \<in> set es. fst x \<noteq> CancelSub)"
proof -
  define bs where "bs = butlast es"
  from assms(1,2) have es: "es = bs @ [(RunDone, [])]"
    unfolding bs_def by (metis append_butlast_last_id)
  from assms(3) have "\<forall>x \<in> set bs. \<not> isGroupCall (fst x)"
    unfolding bs_def .
  with group_free [of bs e] show ?thesis
    unfolding es by auto
qed

lemma beforeCancel_prefix:
  "\<forall>x \<in> set es. fst x \<noteq> CancelSub \<Longrightarrow>
     beforeCancel (es @ [(RunWait, []), (CancelSub, [])] @ rest) = es @ [(RunWait, [])]"
  by (simp add: beforeCancel_def takeWhile_append2)

lemma beforeCancel_all: "\<forall>x \<in> set es. fst x \<noteq> CancelSub \<Longrightarrow> beforeCancel es = es"
  by (simp add: beforeCancel_def)

lemma runTest_facts:
  assumes "runTest ok fuel api td appMeta scnMeta items s = (r, evs, ms, s')"
    and "run s = 0"
  shows "((RunAdd, []) \<in> set evs) = (fst (requestActivity ok api scnMeta s) = Returned ())"
    and "((RunAdd, []) \<in> set evs) = (r = Blocked)"
    and "r = Blocked \<Longrightarrow>
           evs = [(CallListApplications, []),
                  (CallCreateActivity
                     (Link (fst (fst (ListApplications api (world s)))) RelationAlternate)
                     (ScanActivity (Location scnMeta)), []),
                  (CallCreateActivity
                     (Link (fst (fst (ListApplications api (world s)))) RelationAlternate)
                     (RunActivity (Location scnMeta)), []),
                  (RunAdd, []), (RunWait, [])]"
    and "\<forall>e \<in> set (beforeCancel evs). \<not> isRunCall (fst e)"
    and "((RunDone, []) \<in> set evs) = (r = Panic)"
    and "r = Panic \<Longrightarrow> last evs = (RunDone, []) \<and> (CancelSub, []) \<in> set evs"
proof -
  have main:
    "((RunAdd, []) \<in> set evs) = (fst (requestActivity ok api scnMeta s) = Returned ())
     \<and> ((RunAdd, []) \<in> set evs) = (r = Blocked)
     \<and> (r = Blocked \<longrightarrow>
           evs = [(CallListApplications, []),
                  (CallCreateActivity
                     (Link (fst (fst (ListApplications api (world s)))) RelationAlternate)
                     (ScanActivity (Location scnMeta)), []),
                  (CallCreateActivity
                     (Link (fst (fst (ListApplications api (world s)))) RelationAlternate)
                     (RunActivity (Location scnMeta)), []),
                  (RunAdd, []), (RunWait, [])])
     \<and> (\<forall>e \<in> set (beforeCancel evs). \<not> isRunCall (fst e))
     \<and> ((RunDone, []) \<in> set evs) = (r = Panic)
     \<and> (r = Panic \<longrightarrow> last evs = (RunDone, []) \<and> (CancelSub, []) \<in> set evs)"
    using assms
  proof (cases rule: runTest_cases)
    case (counted es0)
    from requestActivity_trace [OF counted(1)]
    have es0: "es0 = [(CallListApplications, []),
                  (CallCreateActivity
                     (Link (fst (fst (ListApplications api (world s)))) RelationAlternate)
                     (ScanActivity (Location scnMeta)), []),
                  (CallCreateActivity
                     (Link (fst (fst (ListApplications api (world s)))) RelationAlternate)
                     (RunActivity (Location scnMeta)), []),
                  (RunAdd, [])]"
      by simp
    have bc: "beforeCancel evs = evs"
      unfolding counted(3) es0 by (simp add: beforeCancel_def)
    show ?thesis
      unfolding bc unfolding counted(1,2,3) es0 by simp
  next
    case (uncounted es0 ms0 s0 esd es2)
    from requestActivity_trace [OF uncounted(1)]
    have a: "\<forall>x \<in> set es0. \<not> isGroupCall (fst x)"
      and a': "\<forall>x \<in> set es0. \<not> isRunCall (fst x)" by simp_all
    from uncounted(3) have b: "\<forall>x \<in> set esd. \<not> isGroupCall (fst x)" by simp
    note ga = group_free [OF a, of "[]"] and gb = group_free [OF b, of "[]"]
    have bc: "beforeCancel evs = es0 @ [(RunWait, [])]"
      unfolding uncounted(2) by (rule beforeCancel_prefix) (use ga in simp)
    have 4: "\<forall>e \<in> set (beforeCancel evs). \<not> isRunCall (fst e)"
      unfolding bc using a' by simp
    have req: "fst (requestActivity ok api scnMeta s) \<noteq> Returned ()"
      using uncounted(1) by simp
    show ?thesis
    proof (cases "r = Panic")
      case True
      with uncounted(6) have "es2 \<noteq> []" "last es2 = (RunDone, [])"
        "\<forall>x \<in> set (butlast es2). \<not> isGroupCall (fst x)"
        by simp_all
      note gc = panic_tail [OF this, of "[]"]
      from \<open>es2 \<noteq> []\<close> \<open>last es2 = (RunDone, [])\<close> have "last evs = (RunDone, [])"
        unfolding uncounted(2) by simp
      with True 4 req ga gb gc show ?thesis
        unfolding uncounted(2) by simp
    next
      case False
      with uncounted(5) have "\<forall>x \<in> set es2. \<not> isGroupCall (fst x)" by simp
      note gc = group_free [OF this, of "[]"]
      from False uncounted(4) 4 req ga gb gc show ?thesis
        unfolding uncounted(2) by simp
    qed
  qed
  note c1 = main [THEN conjunct1]
  note c2 = main [THEN conjunct2, THEN conjunct1]
  note c3 = main [THEN conjunct2, THEN conjunct2, THEN conjunct1, rule_format]
  note c4 = main [THEN conjunct2, THEN conjunct2, THEN conjunct2, THEN conjunct1]
  note c5 = main [THEN conjunct2, THEN conjunct2, THEN conjunct2, THEN conjunct2, THEN conjunct1]
  note c6 = main [THEN conjunct2, THEN conjunct2, THEN conjunct2, THEN conjunct2, THEN conjunct2,
                  rule_format]
  show "((RunAdd, []) \<in> set evs) = (fst (requestActivity ok api scnMeta s) = Returned ())"
    by (rule c1)
  show "((RunAdd, []) \<in> set evs) = (r = Blocked)"
    by (rule c2)
  show "r = Blocked \<Longrightarrow>
           evs = [(CallListApplications, []),
                  (CallCreateActivity
                     (Link (fst (fst (ListApplications api (world s)))) RelationAlternate)
                     (ScanActivity (Location scnMeta)), []),
                  (CallCreateActivity
                     (Link (fst (fst (ListApplications api (world s)))) RelationAlternate)
                     (RunActivity (Location scnMeta)), []),
                  (RunAdd, []), (RunWait, [])]"
    by (rule c3)
  show "\<forall>e \<in> set (beforeCancel evs). \<not> isRunCall (fst e)"
    by (rule c4)
  show "((RunDone, []) \<in> set evs) = (r = Panic)"
    by (rule c5)
  show "r = Panic \<Longrightarrow> last evs = (RunDone, []) \<and> (CancelSub, []) \<in> set evs"
    using c6 by simp
qed


text \<open>
  Claim C4. The code does not keep the protocol of the claim. \<^verbatim>\<open>run.Add(1)\<close> is
  executed after the \<^verbatim>\<open>CreateActivity\<close> call that requests the run, and only when the
  Request Activity subtest reaches its end. Once it has been executed \<^verbatim>\<open>run.Wait()\<close>
  never returns: the run ends blocked in it, after the three calls of the request, the
  \<^verbatim>\<open>Add\<close> and the \<^verbatim>\<open>Wait\<close>, so \<^verbatim>\<open>cancelSub()\<close> is not reached and no Run subtest is
  executed. In every run, no call of a Run subtest and no \<^verbatim>\<open>run.Done()\<close> comes before
  \<^verbatim>\<open>cancelSub()\<close>; a \<^verbatim>\<open>run.Done()\<close> is executed only in a run that has not counted
  its run, after \<^verbatim>\<open>cancelSub()\<close>, and there it panics as the last event of the run.
\<close>

theorem runTest_counted_run_blocks_wait:
  assumes "runTest ok fuel api td appMeta scnMeta items s = (r, evs, ms, s')"
    and "run s = 0"
  shows "((RunAdd, []) \<in> set evs) = (fst (requestActivity ok api scnMeta s) = Returned ())
       \<and> ((RunAdd, []) \<in> set evs) = (r = Blocked)
       \<and> (r = Blocked \<longrightarrow>
            evs = [(CallListApplications, []),
                   (CallCreateActivity
                      (Link (fst (fst (ListApplications api (world s)))) RelationAlternate)
                      (ScanActivity (Location scnMeta)), []),
                   (CallCreateActivity
                      (Link (fst (fst (ListApplications api (world s)))) RelationAlternate)
                      (RunActivity (Location scnMeta)), []),
                   (RunAdd, []), (RunWait, [])])
       \<and> (\<forall>e \<in> set (beforeCancel evs). \<not> isRunCall (fst e))
       \<and> ((RunDone, []) \<in> set evs) = (r = Panic)
       \<and> (r = Panic \<longrightarrow> last evs = (RunDone, []) \<and> (CancelSub, []) \<in> set evs)"
proof -
  note f = runTest_facts [OF assms]
  from f(3) have 3: "r = Blocked \<longrightarrow>
            evs = [(CallListApplications, []),
                   (CallCreateActivity
                      (Link (fst (fst (ListApplications api (world s)))) RelationAlternate)
                      (ScanActivity (Location scnMeta)), []),
                   (CallCreateActivity
                      (Link (fst (fst (ListApplications api (world s)))) RelationAlternate)
                      (RunActivity (Location scnMeta)), []),
                   (RunAdd, []), (RunWait, [])]"
    by (rule impI)
  from f(6) have 6: "r = Panic \<longrightarrow> last evs = (RunDone, []) \<and> (CancelSub, []) \<in> set evs"
    by (rule impI)
  show ?thesis
    by (intro conjI f(1) f(2) 3 f(4) f(5) 6)
qed

text \<open>
  A service that answers every request without error: the run is counted and the test
  blocks in \<^verbatim>\<open>run.Wait()\<close>. A service that refuses the request for the run while a Run
  item is on the channel: the run is not counted and the test panics in the deferred
  \<^verbatim>\<open>run.Done()\<close> of the Run subtest.
\<close>

theorem runTest_counted_run_blocks_wait_witness:
  "runTest True 1 (demoAPI 0) demoTd demoAppMeta demoScnMeta [scanItem, runItem] start =
     (Blocked,
      [(CallListApplications, []),
       (CallCreateActivity ''/feed'' (ScanActivity ''/scn''), []),
       (CallCreateActivity ''/feed'' (RunActivity ''/scn''), []),
       (RunAdd, []), (RunWait, [])], [], \<lparr>world = 0, run = 1\<rparr>)
   \<and> run start = 0
   \<and> fst (requestActivity True (demoAPI 0) demoScnMeta start) = Returned ()
   \<and> fst (runTest True 1 unavailableRun demoTd demoAppMeta demoScnMeta [scanItem, runItem]
            start) = Panic
   \<and> last (fst (snd (runTest True 1 unavailableRun demoTd demoAppMeta demoScnMeta
                        [scanItem, runItem] start))) = (RunDone, [])"
proof -
  obtain r evs ms s' where
    run: "runTest True 1 (demoAPI 0) demoTd demoAppMeta demoScnMeta [scanItem, runItem] start
            = (r, evs, ms, s')"
    by (metis prod.exhaust)
  have zero: "run start = 0"
    by (simp add: start_def)
  have req: "fst (requestActivity True (demoAPI 0) demoScnMeta start) = Returned ()"
    by (simp add: run_defs demo_defs)
  note t = runTest_counted_run_blocks_wait [OF run zero]
  from t [THEN conjunct1] req have add: "(RunAdd, []) \<in> set evs"
    by simp
  from t [THEN conjunct2, THEN conjunct1] add have blocked: "r = Blocked"
    by simp
  from t [THEN conjunct2, THEN conjunct2, THEN conjunct1] blocked
  have "evs = [(CallListApplications, []),
               (CallCreateActivity
                  (Link (fst (fst (ListApplications (demoAPI 0) (world start)))) RelationAlternate)
                  (ScanActivity (Location demoScnMeta)), []),
               (CallCreateActivity
                  (Link (fst (fst (ListApplications (demoAPI 0) (world start)))) RelationAlternate)
                  (RunActivity (Location demoScnMeta)), []),
               (RunAdd, []), (RunWait, [])]"
    by simp
  then have "evs = [(CallListApplications, []),
                (CallCreateActivity ''/feed'' (ScanActivity ''/scn''), []),
                (CallCreateActivity ''/feed'' (RunActivity ''/scn''), []),
                (RunAdd, []), (RunWait, [])]"
    by (simp add: demo_defs Link_def)
  moreover note blocked
  moreover have "snd (snd (runTest True 1 (demoAPI 0) demoTd demoAppMeta demoScnMeta
                             [scanItem, runItem] start)) = ([], \<lparr>world = 0, run = 1\<rparr>)"
    by (simp add: run_defs demo_defs)
  ultimately have a:
    "runTest True 1 (demoAPI 0) demoTd demoAppMeta demoScnMeta [scanItem, runItem] start =
     (Blocked,
      [(CallListApplications, []),
       (CallCreateActivity ''/feed'' (ScanActivity ''/scn''), []),
       (CallCreateActivity ''/feed'' (RunActivity ''/scn''), []),
       (RunAdd, []), (RunWait, [])], [], \<lparr>world = 0, run = 1\<rparr>)"
    using run by simp
  have b: "fst (runTest True 1 unavailableRun demoTd demoAppMeta demoScnMeta [scanItem, runItem]
            start) = Panic"
    by (simp add: run_defs demo_defs)
  have c: "last (fst (snd (runTest True 1 unavailableRun demoTd demoAppMeta demoScnMeta
                        [scanItem, runItem] start))) = (RunDone, [])"
    by (simp add: run_defs demo_defs)
  from a zero req b c show ?thesis by simp
qed

section \<open>Properties of the delete commands and of the subscription\<close>

text \<open>
  Claim C7, as the code has it. On an item whose self link is empty, the visitor of the
  delete experiments command returns \<^verbatim>\<open>nil\<close> without calling the delete API, and the
  command goes on with the remaining names; the visitor of the delete applications
  command calls no delete API either, but returns the error
  \<open>malformed response, missing self link\<close>, which ends the command: the remaining
  names are not visited.
\<close>

theorem delete_visitors_on_missing_self_link:
  assumes "Link item RelationSelf = []"
    and "NewClient svc = []"
    and "GetExperimentByName svc name w = ((item, []), w1)"
    and "GetApplicationByName svc name v = ((item, []), v1)"
  shows "deleteExperimentVisitor svc item w1 = ([], [], w1)
       \<and> deleteExperiments svc ignoreNotFound (name # names) w
           = deleteExperiments svc ignoreNotFound names w1
       \<and> deleteApplicationVisitor svc item v1
           = ([OtherError ''malformed response, missing self link''], [], v1)
       \<and> deleteApplications svc ignoreNotFound (name # names) v
           = ([OtherError ''malformed response, missing self link''], [], v1)"
proof -
  have e: "deleteExperimentVisitor svc item w1 = ([], [], w1)"
    using assms(1) by (simp add: deleteExperimentVisitor_def)
  have a: "deleteApplicationVisitor svc item v1 = (malformedResponse, [], v1)"
    using assms(1) by (simp add: deleteApplicationVisitor_def)
  have ne: "malformedResponse \<noteq> []"
    by (simp add: malformedResponse_def)
  have es: "deleteExperiments svc ignoreNotFound (name # names) w
           = deleteExperiments svc ignoreNotFound names w1"
    unfolding deleteExperiments_def using assms(2) assms(3) e
    by simp
  have as: "deleteApplications svc ignoreNotFound (name # names) v = (malformedResponse, [], v1)"
    unfolding deleteApplications_def using assms(2) assms(4) a ne
    by simp
  from e a es as show ?thesis
    by (simp add: malformedResponse_def)
qed

theorem delete_visitors_on_missing_self_link_witness:
  "Link (demoItem ''orphan'') RelationSelf = []
   \<and> deleteExperimentVisitor demoService (demoItem ''orphan'') 0 = ([], [], 0)
   \<and> deleteExperiments demoService False [''orphan'', ''b''] 0
       = ([], [DeleteExperimentCall ''/items/b'', Printed ''b''], 1)
   \<and> deleteApplications demoService False [''orphan'', ''b''] 0
       = ([OtherError ''malformed response, missing self link''], [], 0)"
proof -
  have 1: "Link (demoItem ''orphan'') RelationSelf = []"
    by (simp add: Link_def demoItem_def)
  have 2: "NewClient demoService = []"
    by (simp add: demoService_def)
  have 3: "GetExperimentByName demoService ''orphan'' 0 = ((demoItem ''orphan'', []), 0)"
    by (simp add: demoService_def)
  have 4: "GetApplicationByName demoService ''orphan'' 0 = ((demoItem ''orphan'', []), 0)"
    by (simp add: demoService_def)
  have rest: "deleteExperiments demoService False [''b''] 0
       = ([], [DeleteExperimentCall ''/items/b'', Printed ''b''], 1)"
    by (simp add: deleteExperiments_def deleteExperimentVisitor_def demoService_def
          demoItem_def Link_def)
  from delete_visitors_on_missing_self_link [OF 1 2 3 4, of False "[''b'']"] rest 1
  show ?thesis by simp
qed

text \<open>
  The claim as worded fails for the delete applications command: on the item without a
  self link its visitor returns an error, and the name after it is not visited.
\<close>

theorem deleteApplications_missing_self_link_counterexample:
  "Link (demoItem ''orphan'') RelationSelf = []
   \<and> fst (deleteApplicationVisitor demoService (demoItem ''orphan'') 0) \<noteq> []
   \<and> deleteApplications demoService False [''orphan'', ''b''] 0
       = ([OtherError ''malformed response, missing self link''], [], 0)"
  by (simp add: deleteApplications_def deleteApplicationVisitor_def demoService_def
        demoItem_def Link_def malformedResponse_def)

lemma sent_foldl_send: "foldl send ch items = ch\<lparr>sent := sent ch @ items\<rparr>"
  by (induction items arbitrary: ch) (simp_all add: send_def)

lemma deliveryLoop_result:
  "deliveryLoop cycles polls ch =
     ch\<lparr>sent := sent ch @ concat (concat (take cycles polls)), closed := True\<rparr>"
proof (induction cycles polls ch rule: deliveryLoop.induct)
  case (1 polls ch)
  then show ?case by (simp add: close_def)
next
  case (2 cycles ch)
  then show ?case by simp
next
  case (3 cycles pages polls ch)
  then show ?case by (simp add: sent_foldl_send)
qed

text \<open>
  Claim C5. On a subscription that was created, the consumer's range loop ends once
  the cancellation is observed, having received the items of the polls fetched until
  then, in feed order; when the cancellation comes after the whole feed has been
  fetched, it has received every item of every page, \<open>N\<close> in all, in feed order. When
  the subscription cannot be created the channel is closed at once and the range loop
  ends with no item.
\<close>

theorem subscription_delivers_feed_in_order:
  assumes "length (concat (concat polls)) = N"
    and "length polls \<le> cycles"
  shows "rangeOver (fst (subscribe [] cycles polls)) = Some (concat (concat polls))
       \<and> length (sent (fst (subscribe [] cycles polls))) = N
       \<and> closed (fst (subscribe [] cycles polls))
       \<and> rangeOver (fst (subscribe [] early polls)) = Some (concat (concat (take early polls)))
       \<and> (err \<noteq> [] \<longrightarrow> rangeOver (fst (subscribe err cycles polls)) = Some [])"
  using assms
  by (simp add: subscribe_def rangeOver_def deliveryLoop_result close_def)

theorem subscription_delivers_feed_in_order_witness:
  "length (concat (concat demoPolls)) = 2
   \<and> length demoPolls \<le> 3
   \<and> rangeOver (fst (subscribe [] 3 demoPolls)) = Some [scanItem, runItem]
   \<and> rangeOver (fst (subscribe [] 0 demoPolls)) = Some []
   \<and> rangeOver (fst (subscribe unavailable 3 demoPolls)) = Some []"
proof -
  have 1: "length (concat (concat demoPolls)) = 2" by (simp add: demoPolls_def)
  have 2: "length demoPolls \<le> 3" by (simp add: demoPolls_def)
  have 3: "unavailable \<noteq> []" by (simp add: unavailable_def)
  from subscription_delivers_feed_in_order [OF 1 2, of 0 unavailable] 3
  show ?thesis by (simp add: demoPolls_def)
qed

end
